theory Spec2Isabelle
  imports Main "HOL-Library.Word"
begin

unbundle bit_operations_syntax

section \<open>Errors\<close>

text \<open>
  The exceptions that the modelled code raises, by the macro or library call that creates
  them. \<open>NESTED outer inner\<close> is \<^verbatim>\<open>std::throw_with_nested(outer)\<close> while \<open>inner\<close> is being
  handled. \<open>STD_EXCEPTION\<close> is an object whose class is \<^verbatim>\<open>std::exception\<close> itself: it
  has neither the class nor the message of an exception that it was copied from.
  \<open>TERMINATE\<close> is not an exception: it stands for \<^verbatim>\<open>std::terminate()\<close>, which no
  handler catches.
\<close>

datatype error =
    INVALID_ARGUMENT string
  | LOGIC_ERROR string
  | RUNTIME_ERROR string
  | SYSTEM_ERROR string nat
  | OUT_OF_RANGE string
  | NESTED error error
  | STD_EXCEPTION
  | TERMINATE

text \<open>
  \<^verbatim>\<open>std::make_exception_ptr(ex)\<close> for \<^verbatim>\<open>const std::exception& ex\<close>, as \<open>setException\<close>
  calls it: the pointer refers to a copy of \<open>ex\<close> made by the copy constructor of the
  static class of the argument, \<^verbatim>\<open>std::exception\<close>. The copy is sliced, whatever was
  thrown.
\<close>

definition make_exception_ptr :: "error \<Rightarrow> error" where
  "make_exception_ptr ex = STD_EXCEPTION"

section \<open>HycastProto.h\<close>

subsection \<open>Identifiers\<close>

text \<open>
  \<^verbatim>\<open>ProdIndex::Type = uint32_t; using ProdSize = uint32_t; using SegSize = uint16_t;
  using SegOffset = ProdSize;\<close>
\<close>

type_synonym ProdIndex = "32 word"
type_synonym ProdSize = "32 word"
type_synonym SegSize = "16 word"
type_synonym SegOffset = "32 word"

text \<open>
  \<^verbatim>\<open>struct DataSegId { ProdIndex prodIndex; SegOffset offset; }\<close> (the second field is
  \<open>segOffset\<close> here, \<open>offset\<close> being the parameter of \<open>DataSeg::size\<close> below).
\<close>

record DataSegId =
  prodIndex :: ProdIndex
  segOffset :: SegOffset

text \<open>\<^verbatim>\<open>struct NoteReq\<close>: a tagged union of a product index and a data-segment identifier.\<close>

datatype NoteReq = UNSET | PROD_INDEX ProdIndex | DATA_SEG DataSegId

subsection \<open>The payload length of a data segment\<close>

text \<open>
  \<^verbatim>\<open>static const SegSize CANON_DATASEG_SIZE = 1500 - 20 - 20 - 4 - 4 - 4 - 4;\<close>
  (Ethernet - IP header - TCP header - PduId - prodIndex - offset - prodSize). The
  initialiser is evaluated in \<^verbatim>\<open>int\<close> and converted to 16 bits.
\<close>

definition CANON_DATASEG_SIZE :: SegSize where
  "CANON_DATASEG_SIZE = word_of_int (1500 - 20 - 20 - 4 - 4 - 4 - 4)"

text \<open>
  \<^verbatim>\<open>SegSize nbytes = prodSize - offset;
  return (nbytes > CANON_DATASEG_SIZE) ? CANON_DATASEG_SIZE : nbytes;\<close>
  The subtraction is done in 32 bits (it wraps) and the difference is narrowed to the
  16 bits of \<^verbatim>\<open>SegSize\<close> by the initialisation of \<^verbatim>\<open>nbytes\<close>.
\<close>

definition DataSeg_size :: "ProdSize \<Rightarrow> SegOffset \<Rightarrow> SegSize" where
  "DataSeg_size prodSize offset =
     (let nbytes = (ucast (prodSize - offset) :: SegSize)
      in if nbytes > CANON_DATASEG_SIZE then CANON_DATASEG_SIZE else nbytes)"

section \<open>misc/LinkedSet.cpp\<close>

text \<open>
  \<^verbatim>\<open>LinkedSet<VALUE>::Impl\<close>: a hash map from index to entry whose entries are also linked,
  by index, into a list from \<open>head\<close> to \<open>tail\<close>; index 0 is the null link. The
  \<^verbatim>\<open>std::unordered_map<Index, Entry>\<close> is an association list with at most one pair for a
  key; its size is the number of pairs. The wrapper class passes \<open>key\<close> and \<open>value\<close>
  to \<open>add\<close>, whose body uses both.
\<close>

type_synonym Index = "16 word"

record 'v Entry =
  "value" :: 'v
  prev :: Index
  "next" :: Index

record 'v LinkedSet =
  map' :: "(Index \<times> 'v Entry) list"
  head :: Index
  tail :: Index
  nextIndex :: Index

definition LinkedSet_Impl :: "'v LinkedSet" where
  "LinkedSet_Impl = \<lparr>map' = [], head = 0, tail = 0, nextIndex = 0\<rparr>"

text \<open>
  \<^verbatim>\<open>map[i].field = x\<close> for a key \<open>i\<close> of the map: the entry is changed in place. (No
  entry is ever erased, so the links that the code follows by \<^verbatim>\<open>operator[]\<close> are keys of
  the map; for an absent key the map is left as it is.)
\<close>

definition at_put ::
  "(Index \<times> 'v Entry) list \<Rightarrow> Index \<Rightarrow> ('v Entry \<Rightarrow> 'v Entry) \<Rightarrow> (Index \<times> 'v Entry) list" where
  "at_put m i f = map (\<lambda>(k, e). if k = i then (k, f e) else (k, e)) m"

definition LinkedSet_size :: "'v LinkedSet \<Rightarrow> nat" where
  "LinkedSet_size s = length (map' s)"

text \<open>
  \<open>add\<close>: \<^verbatim>\<open>map.insert\<close> keeps an existing entry; a new entry is linked after the tail.
  The result is the value that the returned pointer refers to.
\<close>

definition LinkedSet_add :: "'v LinkedSet \<Rightarrow> Index \<Rightarrow> 'v \<Rightarrow> error + ('v \<times> 'v LinkedSet)" where
  "LinkedSet_add s key v =
     (if key = 0 then Inl (INVALID_ARGUMENT ''Key is invalid'')
      else case map_of (map' s) key of
        Some e \<Rightarrow> Inr (value e, s)
      | None \<Rightarrow>
          (let m1 = map' s @ [(key, \<lparr>value = v, prev = tail s, next = 0\<rparr>)];
               s1 = (if tail s \<noteq> 0
                     then s\<lparr>map' := at_put m1 (tail s) (\<lambda>e. e\<lparr>next := key\<rparr>)\<rparr>
                     else s\<lparr>map' := m1, head := key\<rparr>)
           in Inr (v, s1\<lparr>tail := key\<rparr>)))"

text \<open>\<open>find\<close>: \<open>None\<close> is \<^verbatim>\<open>nullptr\<close>.\<close>

definition LinkedSet_find :: "'v LinkedSet \<Rightarrow> Index \<Rightarrow> 'v option" where
  "LinkedSet_find s key = (case map_of (map' s) key of None \<Rightarrow> None | Some e \<Rightarrow> Some (value e))"

text \<open>
  \<open>remove\<close>: the neighbours of the entry are linked to each other (or \<open>head\<close> and
  \<open>tail\<close> are moved) and the entry's value is returned. The body has no
  \<^verbatim>\<open>map.erase\<close>.
\<close>

definition LinkedSet_remove :: "'v LinkedSet \<Rightarrow> Index \<Rightarrow> error + ('v \<times> 'v LinkedSet)" where
  "LinkedSet_remove s key =
     (case map_of (map' s) key of
        None \<Rightarrow> Inl (INVALID_ARGUMENT ''No such entry'')
      | Some entry \<Rightarrow>
          (let s1 = (if prev entry \<noteq> 0
                     then s\<lparr>map' := at_put (map' s) (prev entry) (\<lambda>e. e\<lparr>next := next entry\<rparr>)\<rparr>
                     else s\<lparr>head := next entry\<rparr>);
               s2 = (if next entry \<noteq> 0
                     then s1\<lparr>map' := at_put (map' s1) (next entry) (\<lambda>e. e\<lparr>prev := prev entry\<rparr>)\<rparr>
                     else s1\<lparr>tail := prev entry\<rparr>)
           in Inr (value entry, s2)))"

definition getHead :: "'v LinkedSet \<Rightarrow> Index" where
  "getHead s = head s"

definition getTail :: "'v LinkedSet \<Rightarrow> Index" where
  "getTail s = tail s"

text \<open>
  The list from head to tail, as a client walks it: from \<open>getHead\<close> along the
  \<open>next\<close> links to the null link, for at most as many steps as the map has entries.
\<close>

fun list_from :: "nat \<Rightarrow> (Index \<times> 'v Entry) list \<Rightarrow> Index \<Rightarrow> Index list" where
  "list_from 0 m i = []"
| "list_from (Suc n) m i =
     (if i = 0 then []
      else case map_of m i of None \<Rightarrow> [i] | Some e \<Rightarrow> i # list_from n m (next e))"

definition head_to_tail :: "'v LinkedSet \<Rightarrow> Index list" where
  "head_to_tail s = list_from (LinkedSet_size s) (map' s) (getHead s)"

section \<open>net_io/InAddr.cpp\<close>

text \<open>
  An \<^verbatim>\<open>InAddr\<close> holds one of three implementations: \<^verbatim>\<open>In4Addr\<close> with a
  \<^verbatim>\<open>struct in_addr\<close> (the 32 bits of \<^verbatim>\<open>s_addr\<close>, in network byte order),
  \<^verbatim>\<open>In6Addr\<close> with a \<^verbatim>\<open>struct in6_addr\<close> (16 bytes) and \<^verbatim>\<open>NameAddr\<close> with a
  \<^verbatim>\<open>std::string\<close>. (A default-constructed \<^verbatim>\<open>InAddr\<close> has no implementation and
  its comparison dereferences a null pointer; it is no value of this type.)
\<close>

type_synonym in_addr_t = "32 word"

datatype InAddr =
    In4Addr in_addr_t
  | In6Addr "8 word list"
  | NameAddr string

text \<open>
  \<^verbatim>\<open>ntohl\<close> (libc): on a big-endian host the identity, on a little-endian host the
  reversal of the four bytes. The byte order of the host is a parameter.
\<close>

definition bswap_32 :: "32 word \<Rightarrow> 32 word" where
  "bswap_32 x =
     push_bit 24 (take_bit 8 x) OR push_bit 16 (take_bit 8 (drop_bit 8 x))
     OR push_bit 8 (take_bit 8 (drop_bit 16 x)) OR take_bit 8 (drop_bit 24 x)"

definition ntohl :: "bool \<Rightarrow> in_addr_t \<Rightarrow> 32 word" where
  "ntohl big_endian_host x = (if big_endian_host then x else bswap_32 x)"

text \<open>
  \<^verbatim>\<open>memcmp(a, b, n)\<close> (libc): the sign of the first difference among the first \<open>n\<close>
  bytes, compared as unsigned bytes. Both buffers hold at least \<open>n\<close> bytes in the code
  (\<^verbatim>\<open>sizeof(addr)\<close> is 16); where one does not, the comparison stops with 0.
\<close>

fun memcmp :: "8 word list \<Rightarrow> 8 word list \<Rightarrow> nat \<Rightarrow> int" where
  "memcmp (x # xs) (y # ys) (Suc n) =
     (if x \<noteq> y then (if x < y then - 1 else 1) else memcmp xs ys n)"
| "memcmp xs ys n = 0"

text \<open>
  \<^verbatim>\<open>std::string::compare\<close>: the sign of the first difference, characters compared as
  unsigned bytes; a proper prefix is less.
\<close>

fun string_compare :: "string \<Rightarrow> string \<Rightarrow> int" where
  "string_compare [] [] = 0"
| "string_compare [] (y # ys) = - 1"
| "string_compare (x # xs) [] = 1"
| "string_compare (x # xs) (y # ys) =
     (if x \<noteq> y then (if (of_char x :: nat) < of_char y then - 1 else 1)
      else string_compare xs ys)"

text \<open>
  The overloads \<^verbatim>\<open>operator <(const In4Addr&)\<close>, \<^verbatim>\<open>operator <(const In6Addr&)\<close> and
  \<^verbatim>\<open>operator <(const NameAddr&)\<close> of the three classes: the first argument is
  \<^verbatim>\<open>*this\<close>, the second one the right-hand side of known class.
\<close>

fun lt_dispatch :: "bool \<Rightarrow> InAddr \<Rightarrow> InAddr \<Rightarrow> bool" where
  "lt_dispatch be (In4Addr addr) (In4Addr rhs) = (ntohl be addr < ntohl be rhs)"
| "lt_dispatch be (In4Addr addr) (In6Addr rhs) = True"
| "lt_dispatch be (In4Addr addr) (NameAddr rhs) = True"
| "lt_dispatch be (In6Addr addr) (In4Addr rhs) = False"
| "lt_dispatch be (In6Addr addr) (In6Addr rhs) = (memcmp addr rhs 16 < 0)"
| "lt_dispatch be (In6Addr addr) (NameAddr rhs) = True"
| "lt_dispatch be (NameAddr name) (In4Addr rhs) = False"
| "lt_dispatch be (NameAddr name) (In6Addr rhs) = False"
| "lt_dispatch be (NameAddr name) (NameAddr rhs) = (string_compare name rhs < 0)"

fun eq_dispatch :: "InAddr \<Rightarrow> InAddr \<Rightarrow> bool" where
  "eq_dispatch (In4Addr addr) (In4Addr rhs) = (addr = rhs)"
| "eq_dispatch (In4Addr addr) (In6Addr rhs) = False"
| "eq_dispatch (In4Addr addr) (NameAddr rhs) = False"
| "eq_dispatch (In6Addr addr) (In4Addr rhs) = False"
| "eq_dispatch (In6Addr addr) (In6Addr rhs) = (memcmp addr rhs 16 = 0)"
| "eq_dispatch (In6Addr addr) (NameAddr rhs) = False"
| "eq_dispatch (NameAddr name) (In4Addr rhs) = False"
| "eq_dispatch (NameAddr name) (In6Addr rhs) = False"
| "eq_dispatch (NameAddr name) (NameAddr rhs) = (string_compare name rhs = 0)"

text \<open>
  \<^verbatim>\<open>operator <(const InAddr::Impl& rhs)\<close>, the same in the three classes:
  \<^verbatim>\<open>return !(rhs < *this) && !(rhs == *this);\<close>. The calls on \<open>rhs\<close> are virtual and
  \<^verbatim>\<open>*this\<close> has a known class, so they reach the overloads above with the operands
  swapped. \<^verbatim>\<open>operator ==(const InAddr::Impl& rhs)\<close> is \<^verbatim>\<open>return rhs == *this;\<close>.
\<close>

definition Impl_lt :: "bool \<Rightarrow> InAddr \<Rightarrow> InAddr \<Rightarrow> bool" where
  "Impl_lt be this rhs = (\<not> lt_dispatch be rhs this \<and> \<not> eq_dispatch rhs this)"

definition Impl_eq :: "InAddr \<Rightarrow> InAddr \<Rightarrow> bool" where
  "Impl_eq this rhs = eq_dispatch rhs this"

text \<open>\<^verbatim>\<open>InAddr::operator <\<close> and \<^verbatim>\<open>InAddr::operator ==\<close> forward to the implementation.\<close>

definition InAddr_lt :: "bool \<Rightarrow> InAddr \<Rightarrow> InAddr \<Rightarrow> bool" where
  "InAddr_lt be a rhs = Impl_lt be a rhs"

definition InAddr_eq :: "InAddr \<Rightarrow> InAddr \<Rightarrow> bool" where
  "InAddr_eq a rhs = Impl_eq a rhs"

text \<open>A \<^verbatim>\<open>struct in6_addr\<close> has 16 bytes.\<close>

fun in6_valid :: "InAddr \<Rightarrow> bool" where
  "in6_valid (In6Addr addr) = (length addr = 16)"
| "in6_valid (In4Addr addr) = True"
| "in6_valid (NameAddr name) = True"

subsection \<open>The order as the specification words it\<close>

text \<open>
  Lexicographic on (tag, payload) with tag order v4 < v6 < name: IPv4 payloads by their
  numeric value in host byte order, IPv6 payloads byte-wise, names in string order.
\<close>

fun tag :: "InAddr \<Rightarrow> nat" where
  "tag (In4Addr addr) = 0"
| "tag (In6Addr addr) = 1"
| "tag (NameAddr name) = 2"

fun bytes_less :: "nat list \<Rightarrow> nat list \<Rightarrow> bool" where
  "bytes_less [] [] = False"
| "bytes_less [] (y # ys) = True"
| "bytes_less (x # xs) [] = False"
| "bytes_less (x # xs) (y # ys) = (x < y \<or> (x = y \<and> bytes_less xs ys))"

fun payload_less :: "bool \<Rightarrow> InAddr \<Rightarrow> InAddr \<Rightarrow> bool" where
  "payload_less be (In4Addr a) (In4Addr b) = (unat (ntohl be a) < unat (ntohl be b))"
| "payload_less be (In6Addr a) (In6Addr b) = bytes_less (map unat a) (map unat b)"
| "payload_less be (NameAddr a) (NameAddr b) = bytes_less (map of_char a) (map of_char b)"
| "payload_less be a b = False"

definition spec_less :: "bool \<Rightarrow> InAddr \<Rightarrow> InAddr \<Rightarrow> bool" where
  "spec_less be a b = (tag a < tag b \<or> (tag a = tag b \<and> payload_less be a b))"

section \<open>p2p-old/P2pMgr.cpp: the collaborators of the manager\<close>

text \<open>
  \<^verbatim>\<open>SockAddr\<close> is used as a key only; its class is not part of the sources. A \<^verbatim>\<open>Peer\<close>
  is a handle with value semantics; the manager reads its remote address and whether the
  remote node is a path to the publisher. A handle that tests false is \<open>None\<close>.
\<close>

type_synonym SockAddr = nat

record Peer =
  getRmtAddr :: SockAddr
  isPathToPub :: bool

text \<open>What a peer is asked to send to its remote counterpart.\<close>

datatype Pdu = NOTICE NoteReq | REQUEST NoteReq

subsection \<open>Bookkeeper\<close>

text \<open>
  Modelled from the spec: the state of \<^verbatim>\<open>SubBookkeeper\<close> and \<^verbatim>\<open>PubBookkeeper\<close>
  (\<^verbatim>\<open>Bookkeeper.h\<close> and its implementation are missing). Per peer a counter; \<open>requested[peer]\<close>,
  the outstanding requests dispatched to that peer; \<open>alternates[NoteReq]\<close>, the peers
  that announced the item but were not picked, in arrival order; the current peers in
  insertion order.
\<close>

record Bookkeeper =
  members :: "Peer list"
  counts :: "Peer \<Rightarrow> nat"
  requestedMap :: "(Peer \<times> NoteReq list) list"
  alternates :: "NoteReq \<Rightarrow> Peer list"

text \<open>Modelled from the spec: the constructor of the missing bookkeeper; nothing is tracked.\<close>

definition Bookkeeper_init :: Bookkeeper where
  "Bookkeeper_init = \<lparr>members = [], counts = (\<lambda>p. 0), requestedMap = [], alternates = (\<lambda>r. [])\<rparr>"

text \<open>
  Modelled from the spec: \<^verbatim>\<open>getRequested(peer)\<close> of the missing bookkeeper, the set
  \<open>requested[peer]\<close> (empty for a peer without an entry).
\<close>

definition getRequested :: "Bookkeeper \<Rightarrow> Peer \<Rightarrow> NoteReq list" where
  "getRequested bk peer = (case map_of (requestedMap bk) peer of None \<Rightarrow> [] | Some rs \<Rightarrow> rs)"

text \<open>
  Modelled from the spec: the assignment \<open>requested[peer] = rs\<close> in the missing
  bookkeeper's map.
\<close>

fun putRequested ::
  "(Peer \<times> NoteReq list) list \<Rightarrow> Peer \<Rightarrow> NoteReq list \<Rightarrow> (Peer \<times> NoteReq list) list" where
  "putRequested [] peer rs = [(peer, rs)]"
| "putRequested ((p, qs) # m) peer rs =
     (if p = peer then (p, rs) # m else (p, qs) # putRequested m peer rs)"

text \<open>
  Modelled from the spec: "some peer currently has this item as outstanding", over the
  missing bookkeeper's \<open>requested\<close> map.
\<close>

definition isOutstanding :: "Bookkeeper \<Rightarrow> NoteReq \<Rightarrow> bool" where
  "isOutstanding bk item = list_ex (\<lambda>(p, rs). item \<in> set rs) (requestedMap bk)"

text \<open>
  Modelled from the spec: \<^verbatim>\<open>Bookkeeper::add(peer)\<close> (missing). The peer becomes a member
  with a zero counter and no outstanding request.
\<close>

definition Bookkeeper_add :: "Bookkeeper \<Rightarrow> Peer \<Rightarrow> Bookkeeper" where
  "Bookkeeper_add bk peer =
     (if peer \<in> set (members bk) then bk
      else bk\<lparr>members := members bk @ [peer],
              counts := (counts bk)(peer := 0),
              requestedMap := putRequested (requestedMap bk) peer []\<rparr>)"

text \<open>
  Modelled from the spec: \<^verbatim>\<open>Bookkeeper::erase(peer)\<close> (missing), "purge all entries".
\<close>

definition Bookkeeper_erase :: "Bookkeeper \<Rightarrow> Peer \<Rightarrow> Bookkeeper" where
  "Bookkeeper_erase bk peer =
     bk\<lparr>members := removeAll peer (members bk),
        counts := (counts bk)(peer := 0),
        requestedMap := filter (\<lambda>(p, rs). p \<noteq> peer) (requestedMap bk),
        alternates := (\<lambda>r. removeAll peer (alternates bk r))\<rparr>"

text \<open>Modelled from the spec: \<^verbatim>\<open>Bookkeeper::resetCounts()\<close> (missing) zeroes all counters.\<close>

definition resetCounts :: "Bookkeeper \<Rightarrow> Bookkeeper" where
  "resetCounts bk = bk\<lparr>counts := (\<lambda>p. 0)\<rparr>"

text \<open>
  Modelled from the spec: \<^verbatim>\<open>SubBookkeeper::getPubPathCounts(numPath, numNoPath)\<close>
  (missing), the counts over the current peers by their path-to-publisher flag.
\<close>

definition getPubPathCounts :: "Bookkeeper \<Rightarrow> nat \<times> nat" where
  "getPubPathCounts bk =
     (length (filter isPathToPub (members bk)),
      length (filter (\<lambda>p. \<not> isPathToPub p) (members bk)))"

text \<open>
  Modelled from the spec: the selection inside the missing \<^verbatim>\<open>getWorstPeer\<close>: the peer
  with the lowest counter; on ties, the one inserted first; none for no peer.
\<close>

fun worstOf :: "(Peer \<Rightarrow> nat) \<Rightarrow> Peer list \<Rightarrow> Peer option" where
  "worstOf c [] = None"
| "worstOf c (p # ps) =
     (case worstOf c ps of
        None \<Rightarrow> Some p
      | Some q \<Rightarrow> if c p \<le> c q then Some p else Some q)"

text \<open>Modelled from the spec: \<^verbatim>\<open>Bookkeeper::getWorstPeer()\<close> (missing), over all peers.\<close>

definition getWorstPeer :: "Bookkeeper \<Rightarrow> Peer option" where
  "getWorstPeer bk = worstOf (counts bk) (members bk)"

text \<open>
  Modelled from the spec: \<^verbatim>\<open>SubBookkeeper::getWorstPeer(bool)\<close> (missing), which
  "restricts to peers matching a given path flag".
\<close>

definition getWorstPeer_flag :: "Bookkeeper \<Rightarrow> bool \<Rightarrow> Peer option" where
  "getWorstPeer_flag bk pubPath =
     worstOf (counts bk) (filter (\<lambda>p. isPathToPub p = pubPath) (members bk))"

text \<open>
  Modelled from the spec: \<^verbatim>\<open>SubBookkeeper::shouldRequest(peer, item)\<close> (missing). It is
  true iff no peer currently has the item as outstanding, it marks the item as announced
  by the peer, and a second call with the same arguments is false. The manager calls
  nothing else between this answer and the request that the peer sends, so a true answer
  records the item as outstanding from the peer; a false answer appends the peer to the
  item's alternates.
\<close>

definition Bookkeeper_shouldRequest :: "Bookkeeper \<Rightarrow> Peer \<Rightarrow> NoteReq \<Rightarrow> bool \<times> Bookkeeper" where
  "Bookkeeper_shouldRequest bk peer item =
     (if isOutstanding bk item
      then (False, bk\<lparr>alternates := (alternates bk)(item := alternates bk item @ [peer])\<rparr>)
      else (True, bk\<lparr>requestedMap :=
                        putRequested (requestedMap bk) peer (getRequested bk peer @ [item])\<rparr>))"

text \<open>
  Modelled from the spec: \<^verbatim>\<open>SubBookkeeper::requested(peer, item)\<close> (missing) "records
  an assignment": the item joins the set \<open>requested[peer]\<close>.
\<close>

definition Bookkeeper_requested :: "Bookkeeper \<Rightarrow> Peer \<Rightarrow> NoteReq \<Rightarrow> Bookkeeper" where
  "Bookkeeper_requested bk peer item =
     (if item \<in> set (getRequested bk peer) then bk
      else bk\<lparr>requestedMap :=
                putRequested (requestedMap bk) peer (getRequested bk peer @ [item])\<rparr>)"

text \<open>
  Modelled from the spec: \<^verbatim>\<open>SubBookkeeper::received(peer, item)\<close> (missing) "returns true
  only if the item was outstanding from exactly this peer; removes the assignment; bumps
  counter".
\<close>

definition Bookkeeper_received :: "Bookkeeper \<Rightarrow> Peer \<Rightarrow> NoteReq \<Rightarrow> bool \<times> Bookkeeper" where
  "Bookkeeper_received bk peer item =
     (if item \<in> set (getRequested bk peer)
      then (True, bk\<lparr>requestedMap :=
                        putRequested (requestedMap bk) peer (removeAll item (getRequested bk peer)),
                      counts := (counts bk)(peer := counts bk peer + 1)\<rparr>)
      else (False, bk))"

text \<open>
  Modelled from the spec: \<^verbatim>\<open>SubBookkeeper::popBestAlt(item)\<close> (missing) "pops the head
  of \<open>alternates[NoteReq]\<close>"; a handle that tests false when there is none.
\<close>

definition popBestAlt :: "Bookkeeper \<Rightarrow> NoteReq \<Rightarrow> Peer option \<times> Bookkeeper" where
  "popBestAlt bk item =
     (case alternates bk item of
        [] \<Rightarrow> (None, bk)
      | p # ps \<Rightarrow> (Some p, bk\<lparr>alternates := (alternates bk)(item := ps)\<rparr>))"

subsection \<open>PeerSet\<close>

text \<open>
  Modelled from the spec: \<^verbatim>\<open>PeerSet::activate(peer)\<close> (\<^verbatim>\<open>PeerSet.h\<close> is missing):
  "insert, start its workers; rejects duplicates", the set being keyed by remote address.
  The set is the list of its peers; \<^verbatim>\<open>PeerSet::size()\<close> is its length.
\<close>

definition PeerSet_activate :: "Peer list \<Rightarrow> Peer \<Rightarrow> error + Peer list" where
  "PeerSet_activate ps peer =
     (if getRmtAddr peer \<in> set (map getRmtAddr ps)
      then Inl (LOGIC_ERROR ''Peer already exists'')
      else Inr (ps @ [peer]))"

text \<open>
  Modelled from the spec: \<^verbatim>\<open>PeerSet::notify(item, exclude_peer)\<close> (missing): "broadcast
  to all peers, skipping any peer from which that item was received". The result is what
  is sent, and to whom.
\<close>

definition PeerSet_notify :: "Peer list \<Rightarrow> NoteReq \<Rightarrow> Peer \<Rightarrow> (Peer \<times> Pdu) list" where
  "PeerSet_notify ps item exclude =
     map (\<lambda>p. (p, NOTICE item)) (filter (\<lambda>p. p \<noteq> exclude) ps)"

section \<open>p2p-old/P2pMgr.cpp: the manager\<close>

text \<open>
  \<^verbatim>\<open>PubP2pMgr\<close> and \<^verbatim>\<open>SubP2pMgr\<close> derive from \<^verbatim>\<open>P2pMgr::Impl\<close>; the class of an
  object selects the implementation of the virtual methods.
\<close>

datatype MgrType = PubP2pMgr | SubP2pMgr

text \<open>The threads that a manager owns.\<close>

datatype Task = ACCEPT | IMPROVE | CONNECT

text \<open>
  The members of \<^verbatim>\<open>P2pMgr::Impl\<close> and \<^verbatim>\<open>SubP2pMgr\<close>. A \<^verbatim>\<open>std::thread\<close> member is
  its \<^verbatim>\<open>joinable()\<close>. \<open>halted\<close> lists the peers of the set on which \<^verbatim>\<open>halt()\<close> was
  called and that have not stopped yet; \<open>serverPool\<close> lists the addresses given to
  \<^verbatim>\<open>ServerPool::consider\<close>; \<open>sent\<close> logs what peers were asked to send.
  \<open>maxPeers\<close>, a \<^verbatim>\<open>const int\<close> that the code compares with the \<^verbatim>\<open>size_t\<close> of
  \<^verbatim>\<open>peerSet.size()\<close>, is a natural number.
\<close>

record P2pMgr =
  mgrType :: MgrType
  executing :: bool
  "done" :: bool
  maxPeers :: nat
  taskException :: "error option"
  peerSet :: "Peer list"
  halted :: "Peer list"
  acceptThread :: bool
  improveThread :: bool
  connectThread :: bool
  peers :: "SockAddr \<Rightarrow> Peer option"
  bookkeeper :: Bookkeeper
  serverPool :: "SockAddr list"
  sent :: "(Peer \<times> Pdu) list"

text \<open>The constructors: \<^verbatim>\<open>executing{false}\<close>, \<^verbatim>\<open>done{false}\<close>, no exception, no peer, no thread.\<close>

definition Impl :: "MgrType \<Rightarrow> nat \<Rightarrow> P2pMgr" where
  "Impl t n =
     \<lparr>mgrType = t, executing = False, done = False, maxPeers = n, taskException = None,
      peerSet = [], halted = [], acceptThread = False, improveThread = False,
      connectThread = False, peers = (\<lambda>a. None), bookkeeper = Bookkeeper_init,
      serverPool = [], sent = []\<rparr>"

text \<open>
  Modelled from the spec: \<^verbatim>\<open>Peer::halt()\<close> (\<^verbatim>\<open>Peer.h\<close> is missing): "idempotent; shuts
  down the underlying transport for both directions; causes workers to exit". The peer
  stays in the peer set until it has stopped.
\<close>

definition Peer_halt :: "P2pMgr \<Rightarrow> Peer \<Rightarrow> P2pMgr" where
  "Peer_halt s p = (if p \<in> set (halted s) then s else s\<lparr>halted := halted s @ [p]\<rparr>)"

text \<open>Modelled from the spec: \<^verbatim>\<open>PeerSet::halt()\<close> (missing) "terminates all peers".\<close>

definition PeerSet_halt :: "P2pMgr \<Rightarrow> P2pMgr" where
  "PeerSet_halt s = foldl Peer_halt s (peerSet s)"

text \<open>
  \<open>setException\<close>: \<^verbatim>\<open>if (!taskException) taskException = std::make_exception_ptr(ex);\<close>
  The cell holds the exception that its pointer refers to, which is what
  \<^verbatim>\<open>std::rethrow_exception(taskException)\<close> throws.
\<close>

definition setException :: "P2pMgr \<Rightarrow> error \<Rightarrow> P2pMgr" where
  "setException s ex =
     (if taskException s = None then s\<lparr>taskException := Some (make_exception_ptr ex)\<rparr>
      else s)"

text \<open>
  \<open>waitUntilDone\<close>, on the state that the waiting thread sees when it holds the lock:
  \<open>None\<close> while \<^verbatim>\<open>!done && !taskException\<close> (it keeps waiting), \<open>Some (Some ex)\<close> when it
  rethrows (\<^verbatim>\<open>!done && taskException\<close>), \<open>Some None\<close> when it returns.
\<close>

definition waitUntilDone :: "P2pMgr \<Rightarrow> error option option" where
  "waitUntilDone s =
     (if \<not> done s \<and> taskException s = None then None
      else if \<not> done s then Some (taskException s)
      else Some None)"

text \<open>
  \<open>add\<close>: the bookkeeper first; if activating the peer fails, the peer is erased from
  the bookkeeper and a runtime error is thrown with the failure nested. The result is the
  exception thrown, if any, and the state left behind.
\<close>

definition add :: "P2pMgr \<Rightarrow> Peer \<Rightarrow> error option \<times> P2pMgr" where
  "add s peer =
     (let s1 = s\<lparr>bookkeeper := Bookkeeper_add (bookkeeper s) peer\<rparr>
      in case PeerSet_activate (peerSet s1) peer of
           Inr ps \<Rightarrow>
             (None, s1\<lparr>peerSet := ps, peers := (peers s1)(getRmtAddr peer \<mapsto> peer)\<rparr>)
         | Inl ex \<Rightarrow>
             (Some (NESTED (RUNTIME_ERROR ''Couldn't add peer'') ex),
              s1\<lparr>bookkeeper := Bookkeeper_erase (bookkeeper s1) peer\<rparr>))"

text \<open>\<^verbatim>\<open>PubP2pMgr::tryAdd2\<close>: logs and returns true.\<close>

definition PubP2pMgr_tryAdd2 :: "P2pMgr \<Rightarrow> Peer \<Rightarrow> (error + bool) \<times> P2pMgr" where
  "PubP2pMgr_tryAdd2 s peer = (Inr True, s)"

text \<open>
  \<^verbatim>\<open>SubP2pMgr::tryAdd2\<close>:
  \<^verbatim>\<open>if ((numPath < numNoPath) == rmtIsPathToPub) {
      Peer worst = bookkeeper.getWorstPeer(rmtIsPathToPub);
      if (worst) { worst.halt(); add(peer); success = true; } }\<close>
\<close>

definition SubP2pMgr_tryAdd2 :: "P2pMgr \<Rightarrow> Peer \<Rightarrow> (error + bool) \<times> P2pMgr" where
  "SubP2pMgr_tryAdd2 s peer =
     (let rmtIsPathToPub = isPathToPub peer;
          (numPath, numNoPath) = getPubPathCounts (bookkeeper s)
      in if (numPath < numNoPath) = rmtIsPathToPub
         then (case getWorstPeer_flag (bookkeeper s) rmtIsPathToPub of
                 Some worst \<Rightarrow>
                   (case add (Peer_halt s worst) peer of
                      (None, s') \<Rightarrow> (Inr True, s')
                    | (Some ex, s') \<Rightarrow> (Inl ex, s'))
               | None \<Rightarrow> (Inr False, s))
         else (Inr False, s))"

definition tryAdd2 :: "P2pMgr \<Rightarrow> Peer \<Rightarrow> (error + bool) \<times> P2pMgr" where
  "tryAdd2 s peer =
     (case mgrType s of
        PubP2pMgr \<Rightarrow> PubP2pMgr_tryAdd2 s peer
      | SubP2pMgr \<Rightarrow> SubP2pMgr_tryAdd2 s peer)"

text \<open>
  \<open>tryAdd\<close>, under the manager's mutex: below \<open>maxPeers\<close> the peer is added, above it
  the peer is refused ("peer-set is over-full"), at \<open>maxPeers\<close> the class decides.
\<close>

definition tryAdd :: "P2pMgr \<Rightarrow> Peer \<Rightarrow> (error + bool) \<times> P2pMgr" where
  "tryAdd s peer =
     (let numPeers = length (peerSet s)
      in if numPeers < maxPeers s
         then (case add s peer of
                 (None, s') \<Rightarrow> (Inr True, s')
               | (Some ex, s') \<Rightarrow> (Inl ex, s'))
         else if numPeers > maxPeers s then (Inr False, s)
         else tryAdd2 s peer)"

text \<open>
  The body of the loop of \<^verbatim>\<open>SubP2pMgr::reassignPending\<close>, for one outstanding request:
  \<^verbatim>\<open>Peer altPeer = bookkeeper.popBestAlt(chunkId);
  if (altPeer) { chunkId.request(altPeer); bookkeeper.requested(altPeer, chunkId); }\<close>
\<close>

definition reassign :: "P2pMgr \<Rightarrow> NoteReq \<Rightarrow> P2pMgr" where
  "reassign s chunkId =
     (case popBestAlt (bookkeeper s) chunkId of
        (Some altPeer, bk) \<Rightarrow>
          s\<lparr>sent := sent s @ [(altPeer, REQUEST chunkId)],
            bookkeeper := Bookkeeper_requested bk altPeer chunkId\<rparr>
      | (None, bk) \<Rightarrow> s\<lparr>bookkeeper := bk\<rparr>)"

definition reassignPending :: "P2pMgr \<Rightarrow> Peer \<Rightarrow> P2pMgr" where
  "reassignPending s peer = foldl reassign s (getRequested (bookkeeper s) peer)"

definition PubP2pMgr_stopped2 :: "P2pMgr \<Rightarrow> Peer \<Rightarrow> P2pMgr" where
  "PubP2pMgr_stopped2 s peer = s"

text \<open>\<^verbatim>\<open>SubP2pMgr::stopped2\<close>: \<^verbatim>\<open>serverPool.consider(srvrAddr); reassignPending(peer);\<close>\<close>

definition SubP2pMgr_stopped2 :: "P2pMgr \<Rightarrow> Peer \<Rightarrow> P2pMgr" where
  "SubP2pMgr_stopped2 s peer =
     reassignPending (s\<lparr>serverPool := serverPool s @ [getRmtAddr peer]\<rparr>) peer"

definition stopped2 :: "P2pMgr \<Rightarrow> Peer \<Rightarrow> P2pMgr" where
  "stopped2 s peer =
     (case mgrType s of
        PubP2pMgr \<Rightarrow> PubP2pMgr_stopped2 s peer
      | SubP2pMgr \<Rightarrow> SubP2pMgr_stopped2 s peer)"

text \<open>
  \<open>stopped\<close>, called by the peer set for a peer that stopped:
  \<^verbatim>\<open>if (!done) { stopped2(peer); getBookkeeper().erase(peer);
  peers.erase(peer.getRmtAddr()); notifyImprover(); }\<close>
\<close>

definition stopped :: "P2pMgr \<Rightarrow> Peer \<Rightarrow> P2pMgr" where
  "stopped s peer =
     (if \<not> done s
      then (let s1 = stopped2 s peer
            in s1\<lparr>bookkeeper := Bookkeeper_erase (bookkeeper s1) peer,
                  peers := (peers s1)(getRmtAddr peer := None)\<rparr>)
      else s)"

definition halt :: "P2pMgr \<Rightarrow> P2pMgr" where
  "halt s = s\<lparr>done := True\<rparr>"

subsection \<open>Starting and stopping the tasks\<close>

text \<open>
  \<^verbatim>\<open>acceptThread = std::thread(&Impl::accept, this);\<close> and its like: move-assignment to
  a \<^verbatim>\<open>std::thread\<close> that is joinable calls \<^verbatim>\<open>std::terminate()\<close>. (A failure to create a
  thread for lack of resources is not modelled; the handlers around the calls below deal
  with that failure only.)
\<close>

definition startAccepter :: "P2pMgr \<Rightarrow> error option \<times> P2pMgr" where
  "startAccepter s =
     (if acceptThread s then (Some TERMINATE, s) else (None, s\<lparr>acceptThread := True\<rparr>))"

definition startImprover :: "P2pMgr \<Rightarrow> error option \<times> P2pMgr" where
  "startImprover s =
     (if improveThread s then (Some TERMINATE, s) else (None, s\<lparr>improveThread := True\<rparr>))"

definition startConnector :: "P2pMgr \<Rightarrow> error option \<times> P2pMgr" where
  "startConnector s =
     (if connectThread s then (Some TERMINATE, s) else (None, s\<lparr>connectThread := True\<rparr>))"

text \<open>\<open>stopAccepter\<close>: \<^verbatim>\<open>if (acceptThread.joinable()) { getFactory().close(); acceptThread.join(); }\<close>\<close>

definition stopAccepter :: "P2pMgr \<Rightarrow> P2pMgr" where
  "stopAccepter s = (if acceptThread s then s\<lparr>acceptThread := False\<rparr> else s)"

text \<open>
  \<open>stopImprover\<close> and \<open>stopConnector\<close>: the thread is cancelled and joined, then
  \<^verbatim>\<open>if (status) throw SYSTEM_ERROR(..., status);\<close>. The status that \<^verbatim>\<open>pthread_cancel\<close>
  returns is a parameter.
\<close>

definition stopImprover :: "(Task \<Rightarrow> nat) \<Rightarrow> P2pMgr \<Rightarrow> error option \<times> P2pMgr" where
  "stopImprover pthread_cancel s =
     (if improveThread s
      then (let status = pthread_cancel IMPROVE; s' = s\<lparr>improveThread := False\<rparr>
            in if status \<noteq> 0
               then (Some (SYSTEM_ERROR ''Couldn't cancel improvement thread'' status), s')
               else (None, s'))
      else (None, s))"

definition stopConnector :: "(Task \<Rightarrow> nat) \<Rightarrow> P2pMgr \<Rightarrow> error option \<times> P2pMgr" where
  "stopConnector pthread_cancel s =
     (if connectThread s
      then (let status = pthread_cancel CONNECT; s' = s\<lparr>connectThread := False\<rparr>
            in if status \<noteq> 0
               then (Some (SYSTEM_ERROR ''Couldn't cancel connect thread'' status), s')
               else (None, s'))
      else (None, s))"

definition PubP2pMgr_startTasks2 :: "P2pMgr \<Rightarrow> error option \<times> P2pMgr" where
  "PubP2pMgr_startTasks2 s = (if maxPeers s > 1 then startImprover s else (None, s))"

definition SubP2pMgr_startTasks2 :: "P2pMgr \<Rightarrow> error option \<times> P2pMgr" where
  "SubP2pMgr_startTasks2 s =
     (case startConnector s of
        (Some ex, s') \<Rightarrow> (Some ex, s')
      | (None, s') \<Rightarrow> (if maxPeers s' > 1 then startImprover s' else (None, s')))"

definition startTasks2 :: "P2pMgr \<Rightarrow> error option \<times> P2pMgr" where
  "startTasks2 s =
     (case mgrType s of
        PubP2pMgr \<Rightarrow> PubP2pMgr_startTasks2 s
      | SubP2pMgr \<Rightarrow> SubP2pMgr_startTasks2 s)"

definition startTasks :: "P2pMgr \<Rightarrow> error option \<times> P2pMgr" where
  "startTasks s =
     (case startAccepter s of
        (Some ex, s') \<Rightarrow> (Some ex, s')
      | (None, s') \<Rightarrow> startTasks2 s')"

definition PubP2pMgr_stopTasks2 :: "(Task \<Rightarrow> nat) \<Rightarrow> P2pMgr \<Rightarrow> error option \<times> P2pMgr" where
  "PubP2pMgr_stopTasks2 pthread_cancel s =
     (case stopImprover pthread_cancel s of
        (Some ex, s') \<Rightarrow>
          (Some (NESTED (RUNTIME_ERROR ''Couldn't stop improvement thread'') ex), s')
      | (None, s') \<Rightarrow> (None, s'))"

definition SubP2pMgr_stopTasks2 :: "(Task \<Rightarrow> nat) \<Rightarrow> P2pMgr \<Rightarrow> error option \<times> P2pMgr" where
  "SubP2pMgr_stopTasks2 pthread_cancel s =
     (case stopImprover pthread_cancel s of
        (Some ex, s') \<Rightarrow> (Some ex, s')
      | (None, s') \<Rightarrow> stopConnector pthread_cancel s')"

definition stopTasks2 :: "(Task \<Rightarrow> nat) \<Rightarrow> P2pMgr \<Rightarrow> error option \<times> P2pMgr" where
  "stopTasks2 pthread_cancel s =
     (case mgrType s of
        PubP2pMgr \<Rightarrow> PubP2pMgr_stopTasks2 pthread_cancel s
      | SubP2pMgr \<Rightarrow> SubP2pMgr_stopTasks2 pthread_cancel s)"

definition stopTasks :: "(Task \<Rightarrow> nat) \<Rightarrow> P2pMgr \<Rightarrow> error option \<times> P2pMgr" where
  "stopTasks pthread_cancel s =
     (case stopTasks2 pthread_cancel s of
        (Some ex, s') \<Rightarrow> (Some (NESTED (RUNTIME_ERROR ''Couldn't stop tasks'') ex), s')
      | (None, s') \<Rightarrow> (None, stopAccepter s'))"

text \<open>\<open>shutdown\<close>: \<^verbatim>\<open>stopTasks(); peerSet.halt(); executing = false;\<close>\<close>

definition shutdown :: "(Task \<Rightarrow> nat) \<Rightarrow> P2pMgr \<Rightarrow> error option \<times> P2pMgr" where
  "shutdown pthread_cancel s =
     (case stopTasks pthread_cancel s of
        (Some ex, s') \<Rightarrow> (Some ex, s')
      | (None, s') \<Rightarrow> (None, (PeerSet_halt s')\<lparr>executing := False\<rparr>))"

subsection \<open>What the other threads do\<close>

text \<open>
  Every access to the manager's state is made under its mutex, so an execution is a
  sequence of atomic steps: a call of \<open>halt\<close>; a task reporting an exception; one
  round of the accepting loop or of the connecting loop with the peer that was accepted or
  connected; one round of the improver; a reset of the counters by the improver; a peer of
  the set stopping.
\<close>

datatype Event =
    EvHalt
  | EvSetException error
  | EvAccept Peer
  | EvConnect Peer
  | EvImprove
  | EvResetCounts
  | EvPeerStopped Peer

text \<open>
  One round of \<open>accept\<close>. \<^verbatim>\<open>PubP2pMgr\<close>: \<^verbatim>\<open>(void)tryAdd(peer);\<close>. \<^verbatim>\<open>SubP2pMgr\<close>:
  \<^verbatim>\<open>if (!tryAdd(peer)) serverPool.consider(peer.getRmtAddr());\<close>. In both, an exception
  ends the loop in \<^verbatim>\<open>setException(ex)\<close>.
\<close>

definition accept_iteration :: "P2pMgr \<Rightarrow> Peer \<Rightarrow> P2pMgr" where
  "accept_iteration s peer =
     (case tryAdd s peer of
        (Inl ex, s') \<Rightarrow> setException s' ex
      | (Inr True, s') \<Rightarrow> s'
      | (Inr False, s') \<Rightarrow>
          (case mgrType s' of
             PubP2pMgr \<Rightarrow> s'
           | SubP2pMgr \<Rightarrow> s'\<lparr>serverPool := serverPool s' @ [getRmtAddr peer]\<rparr>))"

text \<open>
  One round of \<^verbatim>\<open>SubP2pMgr::connect\<close>, from \<open>tryAdd\<close> on (the mutex is released
  between \<open>waitToConnect\<close> and \<open>tryAdd\<close>):
  \<^verbatim>\<open>if (!tryAdd(peer)) serverPool.consider(srvrAddr);\<close>, and the inner handler logs an
  exception of \<open>tryAdd\<close> and considers the address again.
\<close>

definition connect_iteration :: "P2pMgr \<Rightarrow> Peer \<Rightarrow> P2pMgr" where
  "connect_iteration s peer =
     (case mgrType s of
        PubP2pMgr \<Rightarrow> s
      | SubP2pMgr \<Rightarrow>
          (case tryAdd s peer of
             (Inr True, s') \<Rightarrow> s'
           | (Inr False, s') \<Rightarrow> s'\<lparr>serverPool := serverPool s' @ [getRmtAddr peer]\<rparr>
           | (Inl ex, s') \<Rightarrow> s'\<lparr>serverPool := serverPool s' @ [getRmtAddr peer]\<rparr>))"

text \<open>
  One round of \<open>improve\<close> after its wait, which lasts while
  \<^verbatim>\<open>peerSet.size() < maxPeers\<close>:
  \<^verbatim>\<open>Peer peer = getBookkeeper().getWorstPeer(); if (peer) peer.halt();\<close>
\<close>

definition improve_iteration :: "P2pMgr \<Rightarrow> P2pMgr" where
  "improve_iteration s =
     (if length (peerSet s) < maxPeers s then s
      else (case getWorstPeer (bookkeeper s) of
              Some peer \<Rightarrow> Peer_halt s peer
            | None \<Rightarrow> s))"

text \<open>
  Modelled from the spec: what the missing \<^verbatim>\<open>PeerSet\<close> does when one of its peers
  stops: the dead peer leaves the set and the manager's \<open>stopped\<close> is called, once.
\<close>

definition PeerSet_stopped :: "P2pMgr \<Rightarrow> Peer \<Rightarrow> P2pMgr" where
  "PeerSet_stopped s peer =
     (if peer \<in> set (peerSet s)
      then stopped (s\<lparr>peerSet := removeAll peer (peerSet s),
                      halted := removeAll peer (halted s)\<rparr>) peer
      else s)"

fun step :: "P2pMgr \<Rightarrow> Event \<Rightarrow> P2pMgr" where
  "step s EvHalt = halt s"
| "step s (EvSetException ex) = setException s ex"
| "step s (EvAccept peer) = accept_iteration s peer"
| "step s (EvConnect peer) = connect_iteration s peer"
| "step s EvImprove = improve_iteration s"
| "step s EvResetCounts = s\<lparr>bookkeeper := resetCounts (bookkeeper s)\<rparr>"
| "step s (EvPeerStopped peer) = PeerSet_stopped s peer"

definition exec :: "P2pMgr \<Rightarrow> Event list \<Rightarrow> P2pMgr" where
  "exec s evs = foldl step s evs"

subsection \<open>operator()()\<close>

text \<open>
  \<^verbatim>\<open>if (executing) throw LOGIC_ERROR("Already called");
  if (!done) { startTasks();
    try { waitUntilDone(); shutdown(); }
    catch (const std::exception& ex) { shutdown(); throw; } }\<close>
  \<open>evs\<close> is what the other threads do between \<open>startTasks\<close> and the moment at which
  \<open>waitUntilDone\<close> decides. The result is \<open>None\<close> when the call is still waiting,
  \<open>Some None\<close> when it returns and \<open>Some (Some ex)\<close> when it throws \<open>ex\<close>, with
  the state it leaves.
\<close>

definition operator_call ::
  "(Task \<Rightarrow> nat) \<Rightarrow> P2pMgr \<Rightarrow> Event list \<Rightarrow> error option option \<times> P2pMgr" where
  "operator_call pthread_cancel s evs =
     (if executing s then (Some (Some (LOGIC_ERROR ''Already called'')), s)
      else if done s then (Some None, s)
      else (case startTasks s of
              (Some ex, s1) \<Rightarrow> (Some (Some ex), s1)
            | (None, s1) \<Rightarrow>
                (let s2 = exec s1 evs
                 in case waitUntilDone s2 of
                      None \<Rightarrow> (None, s2)
                    | Some None \<Rightarrow>
                        (case shutdown pthread_cancel s2 of
                           (None, s3) \<Rightarrow> (Some None, s3)
                         | (Some ex, s3) \<Rightarrow>
                             (case shutdown pthread_cancel s3 of
                                (None, s4) \<Rightarrow> (Some (Some ex), s4)
                              | (Some ex', s4) \<Rightarrow> (Some (Some ex'), s4)))
                    | Some (Some ex) \<Rightarrow>
                        (case shutdown pthread_cancel s2 of
                           (None, s3) \<Rightarrow> (Some (Some ex), s3)
                         | (Some ex', s3) \<Rightarrow> (Some (Some ex'), s3)))))"

subsection \<open>The subscriber's answers to its peers\<close>

text \<open>
  \<^verbatim>\<open>SubP2pMgr::shouldRequest\<close> (both overloads, the item as a \<open>NoteReq\<close>):
  \<^verbatim>\<open>auto peer = peers.at(rmtAddr); should = bookkeeper.shouldRequest(peer, item);\<close>
  under the mutex, then \<^verbatim>\<open>if (should) should = p2pSub.shouldRequest(item);\<close>. The answer
  of the layer above is a parameter.
\<close>

definition SubP2pMgr_shouldRequest ::
  "(NoteReq \<Rightarrow> bool) \<Rightarrow> P2pMgr \<Rightarrow> SockAddr \<Rightarrow> NoteReq \<Rightarrow> (error + bool) \<times> P2pMgr" where
  "SubP2pMgr_shouldRequest p2pSub_shouldRequest s rmtAddr item =
     (case peers s rmtAddr of
        None \<Rightarrow> (Inl (OUT_OF_RANGE ''peers.at''), s)
      | Some peer \<Rightarrow>
          (let (should, bk) = Bookkeeper_shouldRequest (bookkeeper s) peer item;
               s' = s\<lparr>bookkeeper := bk\<rparr>
           in if should then (Inr (p2pSub_shouldRequest item), s') else (Inr False, s')))"

text \<open>
  \<^verbatim>\<open>SubP2pMgr::hereIs\<close> (both overloads, the datum by its identifier):
  \<^verbatim>\<open>if (!bookkeeper.received(peer, id)) return false;
  if (!p2pSub.hereIsP2p(datum)) return false;
  peerSet.notify(id, peer); return true;\<close>
  Whether the layer above newly accepts the datum is a parameter.
\<close>

definition SubP2pMgr_hereIs ::
  "(NoteReq \<Rightarrow> bool) \<Rightarrow> P2pMgr \<Rightarrow> SockAddr \<Rightarrow> NoteReq \<Rightarrow> (error + bool) \<times> P2pMgr" where
  "SubP2pMgr_hereIs p2pSub_hereIsP2p s rmtAddr item =
     (case peers s rmtAddr of
        None \<Rightarrow> (Inl (OUT_OF_RANGE ''peers.at''), s)
      | Some peer \<Rightarrow>
          (let (wasRequested, bk) = Bookkeeper_received (bookkeeper s) peer item;
               s' = s\<lparr>bookkeeper := bk\<rparr>
           in if \<not> wasRequested then (Inr False, s')
              else if \<not> p2pSub_hereIsP2p item then (Inr False, s')
              else (Inr True, s'\<lparr>sent := sent s' @ PeerSet_notify (peerSet s') item peer\<rparr>)))"

section \<open>Concrete peers, items and managers\<close>

definition pA :: Peer where "pA = \<lparr>getRmtAddr = 1, isPathToPub = True\<rparr>"
definition pB :: Peer where "pB = \<lparr>getRmtAddr = 2, isPathToPub = False\<rparr>"
definition pC :: Peer where "pC = \<lparr>getRmtAddr = 3, isPathToPub = False\<rparr>"
definition pD :: Peer where "pD = \<lparr>getRmtAddr = 4, isPathToPub = False\<rparr>"
definition pE :: Peer where "pE = \<lparr>getRmtAddr = 5, isPathToPub = True\<rparr>"

definition item7 :: NoteReq where "item7 = PROD_INDEX 7"

text \<open>A subscriber with room for two peers that has accepted \<open>pA\<close> and \<open>pB\<close>.\<close>

definition sub_two_peers :: P2pMgr where
  "sub_two_peers = exec (Impl SubP2pMgr 2) [EvAccept pA, EvAccept pB]"

text \<open>The same after both peers announced \<open>item7\<close>, \<open>pA\<close> first.\<close>

definition sub_pending :: P2pMgr where
  "sub_pending =
     snd (SubP2pMgr_shouldRequest (\<lambda>r. True)
            (snd (SubP2pMgr_shouldRequest (\<lambda>r. True) sub_two_peers 1 item7)) 2 item7)"

text \<open>A subscriber with room for three peers: one with a path to the publisher, two without.\<close>

definition sub_one_two :: P2pMgr where
  "sub_one_two = exec (Impl SubP2pMgr 3) [EvAccept pA, EvAccept pB, EvAccept pC]"

text \<open>A subscriber with room for four peers: one with a path to the publisher, three without.\<close>

definition sub_one_three :: P2pMgr where
  "sub_one_three = exec (Impl SubP2pMgr 4) [EvAccept pA, EvAccept pB, EvAccept pC, EvAccept pD]"

text \<open>A subscriber with room for two peers, both without a path to the publisher.\<close>

definition sub_none_two :: P2pMgr where
  "sub_none_two = exec (Impl SubP2pMgr 2) [EvAccept pB, EvAccept pC]"

text \<open>A publisher on which \<open>halt\<close> was called while its first \<open>operator()()\<close> waited.\<close>

definition pub_after_run :: P2pMgr where
  "pub_after_run = snd (operator_call (\<lambda>t. 0) (Impl PubP2pMgr 2) [EvHalt])"

text \<open>A linked set after \<open>add(1, 7)\<close>, and the same after \<open>remove(1)\<close>.\<close>

definition one_entry :: "nat LinkedSet" where
  "one_entry =
     \<lparr>map' = [(1, \<lparr>value = 7, prev = 0, next = 0\<rparr>)], head = 1, tail = 1, nextIndex = 0\<rparr>"

definition one_removed :: "nat LinkedSet" where
  "one_removed =
     \<lparr>map' = [(1, \<lparr>value = 7, prev = 0, next = 0\<rparr>)], head = 0, tail = 0, nextIndex = 0\<rparr>"

text \<open>
  10.0.0.2 and 10.0.1.1 as \<^verbatim>\<open>s_addr\<close> on a little-endian host, the IPv6 loopback address
  and a host name.
\<close>

definition addr_10_0_0_2 :: InAddr where "addr_10_0_0_2 = In4Addr 0x0200000A"
definition addr_10_0_1_1 :: InAddr where "addr_10_0_1_1 = In4Addr 0x0101000A"
definition addr_loopback6 :: InAddr where
  "addr_loopback6 = In6Addr [0, 0, 0, 0, 0, 0, 0, 0, 0, 0, 0, 0, 0, 0, 0, 1]"
definition addr_localhost :: InAddr where "addr_localhost = NameAddr ''localhost''"

section \<open>Auxiliary projections\<close>

text \<open>The members that no step on the peers changes, with and without the two flags.\<close>

definition control ::
  "P2pMgr \<Rightarrow> MgrType \<times> bool \<times> bool \<times> nat \<times> error option \<times> bool \<times> bool \<times> bool" where
  "control s = (mgrType s, executing s, done s, maxPeers s, taskException s,
                acceptThread s, improveThread s, connectThread s)"

definition control' :: "P2pMgr \<Rightarrow> MgrType \<times> bool \<times> nat \<times> bool \<times> bool \<times> bool" where
  "control' s =
     (mgrType s, executing s, maxPeers s, acceptThread s, improveThread s, connectThread s)"

text \<open>The largest size of the peer set, by the class of the manager.\<close>

definition sizeBound :: "P2pMgr \<Rightarrow> nat" where
  "sizeBound s = (case mgrType s of PubP2pMgr \<Rightarrow> maxPeers s | SubP2pMgr \<Rightarrow> Suc (maxPeers s))"

section \<open>Properties of DataSeg::size\<close>

lemma CANON_DATASEG_SIZE_value: "unat CANON_DATASEG_SIZE = 1444"
  by (simp add: CANON_DATASEG_SIZE_def)

lemma unat_narrow16: "unat (ucast (w :: 32 word) :: 16 word) = unat w mod 65536"
  by (simp add: unsigned_ucast_eq take_bit_eq_mod)

text \<open>
  The narrowing to \<^verbatim>\<open>SegSize\<close> drops the high 16 bits of the difference: a product of
  exactly 65536 bytes gets a first segment of length 0.
\<close>

lemma DataSeg_size_narrowing: "DataSeg_size 65536 0 = 0"
  by (simp add: DataSeg_size_def CANON_DATASEG_SIZE_def)

text \<open>
  C4, as stated (canonical size 1448): false. A product of 2000 bytes has a first segment
  of 1444 bytes, not of \<open>min 2000 1448 = 1448\<close> bytes.
\<close>

theorem DataSeg_size_1448_counterexample:
  "unat (0 :: SegOffset) \<le> unat (2000 :: ProdSize) \<and>
   unat (DataSeg_size 2000 0) \<noteq> min (unat (2000 :: ProdSize) - unat (0 :: SegOffset)) 1448"
  by (simp add: DataSeg_size_def CANON_DATASEG_SIZE_def)

text \<open>
  C4, amended: the canonical segment size is 1444 bytes, and for \<open>offset \<le> prodSize\<close>
  with a remainder \<open>prodSize - offset\<close> below 65536 bytes, \<open>DataSeg::size\<close> returns
  \<open>min (prodSize - offset) canonical\<close>.
\<close>

theorem DataSeg_size_min:
  assumes "unat offset \<le> unat prodSize"
    and "unat prodSize - unat offset < 65536"
  shows "unat (DataSeg_size prodSize offset)
           = min (unat prodSize - unat offset) (unat CANON_DATASEG_SIZE)
         \<and> unat CANON_DATASEG_SIZE = 1444"
proof -
  have d: "unat (prodSize - offset) = unat prodSize - unat offset"
    using assms(1) by (simp add: unat_sub word_le_nat_alt)
  have u: "unat (ucast (prodSize - offset) :: 16 word) = unat prodSize - unat offset"
    using assms(2) d by (simp add: unat_narrow16)
  show ?thesis
    using u by (auto simp: DataSeg_size_def Let_def CANON_DATASEG_SIZE_value word_less_nat_alt)
qed

theorem DataSeg_size_min_witness:
  "unat (1444 :: SegOffset) \<le> unat (2000 :: ProdSize)
   \<and> unat (2000 :: ProdSize) - unat (1444 :: SegOffset) < 65536
   \<and> unat (DataSeg_size 2000 1444) = 556
   \<and> unat CANON_DATASEG_SIZE = 1444"
  using DataSeg_size_min [of 1444 2000] by simp

section \<open>Properties of the linked set\<close>

lemma length_at_put: "length (at_put m i f) = length m"
  by (simp add: at_put_def)

lemma map_of_at_put:
  "map_of (at_put m i f) j = (if j = i then map_option f (map_of m i) else map_of m j)"
  by (induction m) (auto simp: at_put_def)

lemma LinkedSet_find_alt: "LinkedSet_find s key = map_option value (map_of (map' s) key)"
  by (simp add: LinkedSet_find_def split: option.splits)

text \<open>
  Whatever the set and the key: after a \<open>remove\<close> that returned a value, \<open>find\<close> still
  finds that value under the key and the number of entries is what it was.
\<close>

lemma LinkedSet_remove_keeps_entry:
  assumes "LinkedSet_remove s key = Inr (v, s')"
  shows "LinkedSet_find s' key = Some v \<and> LinkedSet_size s' = LinkedSet_size s"
proof -
  from assms obtain entry where e: "map_of (map' s) key = Some entry" and v: "v = value entry"
    by (auto simp: LinkedSet_remove_def Let_def split: option.splits)
  have f: "LinkedSet_find s' key = Some (value entry)"
    using assms e
    by (auto simp: LinkedSet_remove_def Let_def LinkedSet_find_alt map_of_at_put split: if_splits)
  have l: "LinkedSet_size s' = LinkedSet_size s"
    using assms e
    by (auto simp: LinkedSet_remove_def Let_def LinkedSet_size_def length_at_put split: if_splits)
  show ?thesis using f l v by simp
qed

text \<open>
  C10 (the code departs from it): after \<open>add(1, 7)\<close> on an empty set, \<open>remove(1)\<close>
  returns 7 and unlinks the entry (the list from head to tail is empty), but the entry
  stays in the map: \<open>find(1)\<close> still returns the value and \<open>size()\<close> is still 1.
\<close>

theorem LinkedSet_remove_entry_stays:
  "LinkedSet_add LinkedSet_Impl 1 7 = Inr (7, one_entry)
   \<and> LinkedSet_size one_entry = 1
   \<and> LinkedSet_remove one_entry 1 = Inr (7, one_removed)
   \<and> LinkedSet_find one_removed 1 = Some 7
   \<and> LinkedSet_size one_removed = 1
   \<and> head_to_tail one_removed = []"
  by (simp add: LinkedSet_add_def LinkedSet_Impl_def LinkedSet_remove_def LinkedSet_find_def
      LinkedSet_size_def head_to_tail_def getHead_def one_entry_def one_removed_def)

section \<open>Properties of the order on Internet addresses\<close>

lemma bit_bswap_32:
  "bit (bswap_32 x) n =
     (n < 32 \<and> bit x (if n < 8 then 24 + n else if n < 16 then 8 + n
                        else if n < 24 then n - 8 else n - 24))"
  unfolding bswap_32_def
  by (cases "n < 8"; cases "n < 16"; cases "n < 24"; cases "n < 32")
    (auto simp: bit_simps dest: bit_imp_le_length)

lemma bswap_32_involution: "bswap_32 (bswap_32 x) = x"
  by (rule bit_word_eqI) (auto simp: bit_bswap_32)

lemma ntohl_inj: "ntohl be a = ntohl be b \<longleftrightarrow> a = b"
  by (metis ntohl_def bswap_32_involution)

lemma memcmp_refl: "memcmp a a n = 0"
proof (induction a arbitrary: n)
  case (Cons x xs)
  then show ?case by (cases n) simp_all
qed simp

lemma memcmp_sym: "memcmp a b n < 0 \<longleftrightarrow> memcmp b a n > 0"
  by (induction a b n rule: memcmp.induct) auto

lemma memcmp_eq:
  "length a = n \<Longrightarrow> length b = n \<Longrightarrow> memcmp a b n = 0 \<longleftrightarrow> a = b"
  by (induction a b n rule: memcmp.induct) auto

lemma memcmp_trans:
  "memcmp a b n < 0 \<Longrightarrow> memcmp b c n < 0 \<Longrightarrow> memcmp a c n < 0"
proof (induction a b n arbitrary: c rule: memcmp.induct)
  case (1 x xs y ys n)
  then show ?case by (cases c) (auto split: if_splits)
qed auto

lemma string_compare_refl: "string_compare a a = 0"
  by (induction a) auto

lemma string_compare_sym: "string_compare a b < 0 \<longleftrightarrow> string_compare b a > 0"
  by (induction a b rule: string_compare.induct) auto

lemma string_compare_eq: "string_compare a b = 0 \<longleftrightarrow> a = b"
  by (induction a b rule: string_compare.induct) auto

lemma string_compare_trans:
  "string_compare a b < 0 \<Longrightarrow> string_compare b c < 0 \<Longrightarrow> string_compare a c < 0"
proof (induction a b arbitrary: c rule: string_compare.induct)
  case (4 x xs y ys)
  then show ?case by (cases c) (auto split: if_splits)
next
  case (2 y ys)
  then show ?case by (cases c) (auto split: if_splits)
qed auto

lemma memcmp_bytes_less:
  "length a = n \<Longrightarrow> length b = n \<Longrightarrow>
   memcmp a b n < 0 \<longleftrightarrow> bytes_less (map unat a) (map unat b)"
  by (induction a b n rule: memcmp.induct) (auto simp: word_less_nat_alt word_unat_eq_iff)

lemma string_compare_bytes_less:
  "string_compare a b < 0 \<longleftrightarrow> bytes_less (map of_char a) (map of_char b)"
  by (induction a b rule: string_compare.induct) auto

lemma memcmp_flip:
  "(\<not> memcmp b a n < 0 \<and> memcmp b a n \<noteq> 0) \<longleftrightarrow> memcmp a b n < 0"
  using memcmp_sym [of a b n] by auto

lemma string_compare_flip:
  "(\<not> string_compare b a < 0 \<and> string_compare b a \<noteq> 0) \<longleftrightarrow> string_compare a b < 0"
  using string_compare_sym [of a b] by auto

lemma ntohl_flip:
  "(\<not> ntohl be b < ntohl be a \<and> b \<noteq> a) \<longleftrightarrow> ntohl be a < ntohl be b"
  using ntohl_inj [of be a b] by auto

text \<open>The double dispatch computes the overload for the two classes at hand.\<close>

lemma Impl_lt_direct: "Impl_lt be a b = lt_dispatch be a b"
  by (cases a; cases b) (simp_all add: Impl_lt_def memcmp_flip string_compare_flip ntohl_flip)

lemma lt_dispatch_spec:
  "in6_valid a \<Longrightarrow> in6_valid b \<Longrightarrow> lt_dispatch be a b = spec_less be a b"
  by (cases a; cases b)
    (simp_all add: spec_less_def word_less_nat_alt memcmp_bytes_less string_compare_bytes_less)

lemma lt_dispatch_irrefl: "\<not> lt_dispatch be a a"
  by (cases a) (simp_all add: memcmp_refl string_compare_refl)

lemma lt_dispatch_trans:
  "lt_dispatch be a b \<Longrightarrow> lt_dispatch be b c \<Longrightarrow> lt_dispatch be a c"
  by (cases a; cases b; cases c) (auto intro: memcmp_trans string_compare_trans)

lemma lt_dispatch_asym: "lt_dispatch be a b \<Longrightarrow> \<not> lt_dispatch be b a"
  using lt_dispatch_trans [of be a b a] lt_dispatch_irrefl [of be a] by blast

lemma lt_dispatch_total:
  "in6_valid a \<Longrightarrow> in6_valid b \<Longrightarrow> lt_dispatch be a b \<or> a = b \<or> lt_dispatch be b a"
proof (cases a; cases b)
  fix x y assume "a = In4Addr x" "b = In4Addr y"
  then show ?thesis using ntohl_inj [of be x y] by auto
next
  fix x y assume v: "in6_valid a" "in6_valid b" and "a = In6Addr x" "b = In6Addr y"
  then show ?thesis using memcmp_sym [of y x 16] memcmp_eq [of x 16 y] by auto
next
  fix x y assume "a = NameAddr x" "b = NameAddr y"
  then show ?thesis using string_compare_sym [of y x] string_compare_eq [of x y] by auto
qed auto

lemma eq_dispatch_iff: "in6_valid a \<Longrightarrow> in6_valid b \<Longrightarrow> eq_dispatch b a \<longleftrightarrow> a = b"
  by (cases a; cases b) (auto simp: memcmp_eq string_compare_eq memcmp_refl)

text \<open>
  C9: on Internet addresses (an IPv6 address having its 16 bytes), \<open>a < b\<close> is the
  lexicographic order on (tag, payload) with v4 < v6 < name, IPv4 payloads compared by
  their value in host byte order, IPv6 payloads byte-wise and names as strings; it is a
  strict total order: irreflexive, transitive, asymmetric and total, with the equality of
  the code being identity.
\<close>

theorem InAddr_lt_strict_total_lexicographic:
  assumes "in6_valid a" and "in6_valid b" and "in6_valid c"
  shows "InAddr_lt be a b = spec_less be a b
     \<and> \<not> InAddr_lt be a a
     \<and> (InAddr_lt be a b \<longrightarrow> InAddr_lt be b c \<longrightarrow> InAddr_lt be a c)
     \<and> \<not> (InAddr_lt be a b \<and> InAddr_lt be b a)
     \<and> (InAddr_lt be a b \<or> a = b \<or> InAddr_lt be b a)
     \<and> (InAddr_eq a b \<longleftrightarrow> a = b)"
proof -
  have 1: "InAddr_lt be a b = spec_less be a b"
    using assms by (simp add: InAddr_lt_def Impl_lt_direct lt_dispatch_spec)
  have 2: "\<not> InAddr_lt be a a"
    by (simp add: InAddr_lt_def Impl_lt_direct lt_dispatch_irrefl)
  have 3: "InAddr_lt be a b \<longrightarrow> InAddr_lt be b c \<longrightarrow> InAddr_lt be a c"
    using lt_dispatch_trans [of be a b c] by (simp add: InAddr_lt_def Impl_lt_direct)
  have 4: "\<not> (InAddr_lt be a b \<and> InAddr_lt be b a)"
    using lt_dispatch_asym [of be a b] by (auto simp: InAddr_lt_def Impl_lt_direct)
  have 5: "InAddr_lt be a b \<or> a = b \<or> InAddr_lt be b a"
    using lt_dispatch_total [OF assms(1,2), of be] by (simp add: InAddr_lt_def Impl_lt_direct)
  have 6: "InAddr_eq a b \<longleftrightarrow> a = b"
    using eq_dispatch_iff [OF assms(1,2)] by (simp add: InAddr_eq_def Impl_eq_def)
  from 1 2 3 4 5 6 show ?thesis by blast
qed

theorem InAddr_lt_strict_total_lexicographic_witness:
  "in6_valid addr_10_0_0_2 \<and> in6_valid addr_10_0_1_1 \<and> in6_valid addr_loopback6
   \<and> InAddr_lt False addr_10_0_0_2 addr_10_0_1_1
   \<and> \<not> InAddr_lt False addr_10_0_1_1 addr_10_0_0_2
   \<and> InAddr_lt False addr_10_0_1_1 addr_loopback6
   \<and> InAddr_lt False addr_10_0_0_2 addr_loopback6
   \<and> \<not> InAddr_eq addr_10_0_0_2 addr_10_0_1_1"
  using InAddr_lt_strict_total_lexicographic
          [of addr_10_0_0_2 addr_10_0_1_1 addr_loopback6 False]
    InAddr_lt_strict_total_lexicographic
          [of addr_10_0_1_1 addr_loopback6 addr_loopback6 False]
  by (simp add: addr_10_0_0_2_def addr_10_0_1_1_def addr_loopback6_def spec_less_def
      ntohl_def bswap_32_def)

section \<open>Properties of the peer-to-peer manager\<close>

subsection \<open>Evaluation on concrete managers\<close>

lemmas bk_defs = Bookkeeper_init_def getRequested_def isOutstanding_def Bookkeeper_add_def
  Bookkeeper_erase_def resetCounts_def getPubPathCounts_def getWorstPeer_def getWorstPeer_flag_def
  Bookkeeper_shouldRequest_def Bookkeeper_requested_def Bookkeeper_received_def popBestAlt_def
  PeerSet_activate_def PeerSet_notify_def

lemmas start_defs = startTasks_def startTasks2_def PubP2pMgr_startTasks2_def
  SubP2pMgr_startTasks2_def startAccepter_def startImprover_def startConnector_def

lemmas stop_defs = stopTasks_def stopTasks2_def PubP2pMgr_stopTasks2_def SubP2pMgr_stopTasks2_def
  stopImprover_def stopConnector_def stopAccepter_def

lemmas mgr_defs = Impl_def Peer_halt_def PeerSet_halt_def make_exception_ptr_def
  setException_def waitUntilDone_def
  add_def PubP2pMgr_tryAdd2_def SubP2pMgr_tryAdd2_def tryAdd2_def tryAdd_def reassign_def
  reassignPending_def PubP2pMgr_stopped2_def SubP2pMgr_stopped2_def stopped2_def stopped_def
  halt_def start_defs stop_defs shutdown_def accept_iteration_def connect_iteration_def
  improve_iteration_def PeerSet_stopped_def exec_def operator_call_def
  SubP2pMgr_shouldRequest_def SubP2pMgr_hereIs_def

lemmas peer_defs = pA_def pB_def pC_def pD_def pE_def item7_def

lemma sub_two_peers_eq:
  "sub_two_peers = (Impl SubP2pMgr 2)\<lparr>peerSet := [pA, pB],
      peers := (\<lambda>a. None)(1 \<mapsto> pA, 2 \<mapsto> pB),
      bookkeeper := Bookkeeper_init\<lparr>members := [pA, pB],
         requestedMap := [(pA, []), (pB, [])]\<rparr>\<rparr>"
  by (simp add: sub_two_peers_def bk_defs mgr_defs peer_defs Let_def fun_eq_iff)

lemma sub_pending_eq:
  "sub_pending = sub_two_peers\<lparr>bookkeeper := (bookkeeper sub_two_peers)\<lparr>
       requestedMap := [(pA, [item7]), (pB, [])],
       alternates := (\<lambda>r. [])(item7 := [pB])\<rparr>\<rparr>"
  by (simp add: sub_pending_def sub_two_peers_eq bk_defs mgr_defs peer_defs Let_def fun_eq_iff)

lemma pub_after_run_eq: "pub_after_run = halt (Impl PubP2pMgr 2)"
  by (simp add: pub_after_run_def bk_defs mgr_defs Let_def)

subsection \<open>What the steps leave unchanged\<close>

lemma reassign_frame:
  "control (reassign s r) = control s \<and> peerSet (reassign s r) = peerSet s
   \<and> halted (reassign s r) = halted s \<and> peers (reassign s r) = peers s
   \<and> serverPool (reassign s r) = serverPool s"
  by (simp add: control_def reassign_def popBestAlt_def split: list.splits)

lemma foldl_reassign_frame:
  "control (foldl reassign s rs) = control s \<and> peerSet (foldl reassign s rs) = peerSet s
   \<and> halted (foldl reassign s rs) = halted s \<and> peers (foldl reassign s rs) = peers s
   \<and> serverPool (foldl reassign s rs) = serverPool s"
  by (induction rs arbitrary: s) (simp_all add: reassign_frame)

lemma Peer_halt_frame:
  "control (Peer_halt s p) = control s \<and> peerSet (Peer_halt s p) = peerSet s
   \<and> bookkeeper (Peer_halt s p) = bookkeeper s"
  by (simp add: control_def Peer_halt_def)



lemma add_frame: "control (snd (add s p)) = control s"
  by (simp add: control_def add_def Let_def split: sum.splits)

lemma add_size: "length (peerSet (snd (add s p))) \<le> Suc (length (peerSet s))"
  by (simp add: add_def Let_def PeerSet_activate_def)

lemma SubP2pMgr_tryAdd2_frame:
  "control (snd (SubP2pMgr_tryAdd2 s p)) = control s
   \<and> length (peerSet (snd (SubP2pMgr_tryAdd2 s p))) \<le> Suc (length (peerSet s))"
proof (cases "getWorstPeer_flag (bookkeeper s) (isPathToPub p)")
  case None
  then show ?thesis by (simp add: SubP2pMgr_tryAdd2_def Let_def split: prod.splits)
next
  case (Some w)
  obtain r s' where a: "add (Peer_halt s w) p = (r, s')" by (cases "add (Peer_halt s w) p")
  have f: "control s' = control s \<and> length (peerSet s') \<le> Suc (length (peerSet s))"
    using add_frame [of "Peer_halt s w" p] add_size [of "Peer_halt s w" p] a
    by (simp add: Peer_halt_frame)
  show ?thesis
    using Some a f by (cases r) (simp_all add: SubP2pMgr_tryAdd2_def Let_def split: prod.splits)
qed

lemma tryAdd_frame: "control (snd (tryAdd s p)) = control s"
proof -
  obtain r s' where a: "add s p = (r, s')" by (cases "add s p")
  have f: "control s' = control s" using add_frame [of s p] a by simp
  show ?thesis
    using a f SubP2pMgr_tryAdd2_frame [of s p]
    by (cases r; cases "mgrType s")
      (simp_all add: tryAdd_def tryAdd2_def PubP2pMgr_tryAdd2_def Let_def)
qed

lemma tryAdd_size:
  assumes "length (peerSet s) \<le> sizeBound s"
  shows "length (peerSet (snd (tryAdd s p))) \<le> sizeBound s"
proof -
  obtain r s' where a: "add s p = (r, s')" by (cases "add s p")
  have f: "length (peerSet s') \<le> Suc (length (peerSet s))"
    using add_size [of s p] a by simp
  show ?thesis
    using a f assms SubP2pMgr_tryAdd2_frame [of s p]
    by (cases r; cases "mgrType s")
      (auto simp: tryAdd_def tryAdd2_def PubP2pMgr_tryAdd2_def Let_def sizeBound_def)
qed

lemma control_serverPool: "control (s\<lparr>serverPool := x\<rparr>) = control s"
  by (simp add: control_def)

lemma control'_serverPool:
  "control' (s\<lparr>serverPool := x\<rparr>) = control' s \<and> done (s\<lparr>serverPool := x\<rparr>) = done s
   \<and> taskException (s\<lparr>serverPool := x\<rparr>) = taskException s"
  by (simp add: control'_def)

lemma control_bookkeeper_peers: "control (s\<lparr>bookkeeper := b, peers := q\<rparr>) = control s"
  by (simp add: control_def)

lemma setException_keeps:
  "taskException s = Some e \<Longrightarrow> taskException (setException s e') = Some e"
  by (simp add: setException_def)

lemma setException_peerSet: "peerSet (setException s e) = peerSet s"
  by (simp add: setException_def)

lemma setException_frame:
  "control' (setException s e) = control' s \<and> done (setException s e) = done s"
  by (simp add: setException_def control'_def)

lemma accept_iteration_cases:
  assumes "tryAdd s p = (r, s')"
  shows "accept_iteration s p =
     (case r of Inl ex \<Rightarrow> setException s' ex
      | Inr b \<Rightarrow> if b \<or> mgrType s' = PubP2pMgr then s'
                 else s'\<lparr>serverPool := serverPool s' @ [getRmtAddr p]\<rparr>)"
  unfolding accept_iteration_def assms
  by (simp split: sum.splits bool.splits MgrType.splits)

lemma connect_iteration_cases:
  assumes "tryAdd s p = (r, s')"
  shows "connect_iteration s p =
     (if mgrType s = PubP2pMgr then s
      else if r = Inr True then s'
      else s'\<lparr>serverPool := serverPool s' @ [getRmtAddr p]\<rparr>)"
  unfolding connect_iteration_def assms
  by (simp split: sum.splits bool.splits MgrType.splits)

lemma accept_iteration_frame:
  "control' (accept_iteration s p) = control' s \<and> done (accept_iteration s p) = done s
   \<and> (taskException s = Some e \<longrightarrow> taskException (accept_iteration s p) = Some e)"
proof -
  obtain r s' where a: "tryAdd s p = (r, s')" by (cases "tryAdd s p")
  have f: "control s' = control s" using tryAdd_frame [of s p] a by simp
  then have g: "control' s' = control' s" "done s' = done s" "taskException s' = taskException s"
    by (simp_all add: control_def control'_def)
  show ?thesis
  proof (cases r)
    case (Inl ex)
    then have "accept_iteration s p = setException s' ex"
      by (simp add: accept_iteration_cases [OF a])
    then show ?thesis
      using g setException_frame [of s' ex] setException_keeps [of s' e ex] by simp
  next
    case (Inr b)
    then have "accept_iteration s p = s'
        \<or> accept_iteration s p = s'\<lparr>serverPool := serverPool s' @ [getRmtAddr p]\<rparr>"
      by (simp add: accept_iteration_cases [OF a])
    then show ?thesis
    proof
      assume "accept_iteration s p = s'"
      then show ?thesis using g by simp
    next
      assume "accept_iteration s p = s'\<lparr>serverPool := serverPool s' @ [getRmtAddr p]\<rparr>"
      then show ?thesis using g by (simp add: control'_serverPool)
    qed
  qed
qed

lemma accept_iteration_size:
  assumes "length (peerSet s) \<le> sizeBound s"
  shows "length (peerSet (accept_iteration s p)) \<le> sizeBound s"
proof -
  obtain r s' where a: "tryAdd s p = (r, s')" by (cases "tryAdd s p")
  have f: "length (peerSet s') \<le> sizeBound s"
    using tryAdd_size [OF assms, of p] a by simp
  show ?thesis using f
    by (simp add: accept_iteration_cases [OF a] setException_peerSet split: sum.splits)
qed

lemma connect_iteration_frame: "control (connect_iteration s p) = control s"
proof -
  obtain r s' where a: "tryAdd s p = (r, s')" by (cases "tryAdd s p")
  have f: "control s' = control s" using tryAdd_frame [of s p] a by simp
  show ?thesis using f
    by (simp add: connect_iteration_cases [OF a] control_serverPool)
qed

lemma connect_iteration_size:
  assumes "length (peerSet s) \<le> sizeBound s"
  shows "length (peerSet (connect_iteration s p)) \<le> sizeBound s"
proof -
  obtain r s' where a: "tryAdd s p = (r, s')" by (cases "tryAdd s p")
  have f: "length (peerSet s') \<le> sizeBound s"
    using tryAdd_size [OF assms, of p] a by simp
  show ?thesis using f assms
    by (simp add: connect_iteration_cases [OF a])
qed

lemma improve_iteration_frame:
  "control (improve_iteration s) = control s \<and> peerSet (improve_iteration s) = peerSet s"
  by (simp add: improve_iteration_def Peer_halt_frame split: option.splits)

lemma stopped2_frame:
  "control (stopped2 s p) = control s \<and> peerSet (stopped2 s p) = peerSet s"
proof (cases "mgrType s")
  case PubP2pMgr
  then show ?thesis by (simp add: stopped2_def PubP2pMgr_stopped2_def)
next
  case SubP2pMgr
  let ?s0 = "s\<lparr>serverPool := serverPool s @ [getRmtAddr p]\<rparr>"
  have "control (foldl reassign ?s0 (getRequested (bookkeeper ?s0) p)) = control ?s0
      \<and> peerSet (foldl reassign ?s0 (getRequested (bookkeeper ?s0) p)) = peerSet ?s0"
    using foldl_reassign_frame [of ?s0 "getRequested (bookkeeper ?s0) p"] by simp
  then show ?thesis
    using SubP2pMgr
    by (simp add: stopped2_def SubP2pMgr_stopped2_def reassignPending_def control_serverPool)
qed

lemma stopped_frame:
  "control (stopped s p) = control s \<and> peerSet (stopped s p) = peerSet s"
  using stopped2_frame [of s p]
  by (simp add: stopped_def Let_def control_bookkeeper_peers)

lemma PeerSet_stopped_frame:
  "control (PeerSet_stopped s p) = control s
   \<and> length (peerSet (PeerSet_stopped s p)) \<le> length (peerSet s)"
proof (cases "p \<in> set (peerSet s)")
  case True
  let ?s1 = "s\<lparr>peerSet := removeAll p (peerSet s), halted := removeAll p (halted s)\<rparr>"
  have "control ?s1 = control s" by (simp add: control_def)
  then show ?thesis
    using True stopped_frame [of ?s1 p] by (simp add: PeerSet_stopped_def)
next
  case False
  then show ?thesis by (simp add: PeerSet_stopped_def)
qed

lemma step_frame:
  "control' (step s ev) = control' s \<and> (done s \<longrightarrow> done (step s ev))
   \<and> (taskException s = Some e \<longrightarrow> taskException (step s ev) = Some e)"
proof (cases ev)
  case EvHalt
  then show ?thesis by (simp add: halt_def control'_def)
next
  case (EvSetException x)
  then show ?thesis by (simp add: setException_def control'_def)
next
  case (EvAccept p)
  then show ?thesis using accept_iteration_frame [of s p e] by simp
next
  case (EvConnect p)
  then show ?thesis using connect_iteration_frame [of s p] by (simp add: control_def control'_def)
next
  case EvImprove
  then show ?thesis using improve_iteration_frame [of s] by (simp add: control_def control'_def)
next
  case EvResetCounts
  then show ?thesis by (simp add: control'_def)
next
  case (EvPeerStopped p)
  then show ?thesis using PeerSet_stopped_frame [of s p] by (simp add: control_def control'_def)
qed

lemma step_size:
  assumes "length (peerSet s) \<le> sizeBound s"
  shows "length (peerSet (step s ev)) \<le> sizeBound s"
proof (cases ev)
  case (EvPeerStopped p)
  then show ?thesis using assms PeerSet_stopped_frame [of s p] by simp
qed (simp_all add: assms halt_def setException_peerSet accept_iteration_size
       connect_iteration_size improve_iteration_frame)

lemma sizeBound_step: "sizeBound (step s ev) = sizeBound s"
  using step_frame [of s ev] by (simp add: sizeBound_def control'_def split: MgrType.splits)

lemma exec_Cons: "exec s (ev # evs) = exec (step s ev) evs"
  by (simp add: exec_def)

lemma exec_Nil: "exec s [] = s"
  by (simp add: exec_def)


lemma exec_frame:
  "control' (exec s evs) = control' s \<and> (done s \<longrightarrow> done (exec s evs))
   \<and> (taskException s = Some e \<longrightarrow> taskException (exec s evs) = Some e)"
proof (induction evs arbitrary: s)
  case Nil
  show ?case by (simp add: exec_Nil)
next
  case (Cons ev evs)
  show ?case using Cons [of "step s ev"] step_frame [of s ev e] by (simp add: exec_Cons)
qed

lemma exec_size:
  "length (peerSet s) \<le> sizeBound s \<Longrightarrow> length (peerSet (exec s evs)) \<le> sizeBound s"
proof (induction evs arbitrary: s)
  case Nil
  then show ?case by (simp add: exec_Nil)
next
  case (Cons ev evs)
  have "length (peerSet (step s ev)) \<le> sizeBound (step s ev)"
    using step_size [OF Cons.prems, of ev] by (simp add: sizeBound_step)
  from Cons.IH [OF this] show ?case by (simp add: exec_Cons sizeBound_step)
qed

subsection \<open>Running the manager twice\<close>

lemma startTasks_executing: "executing (snd (startTasks s)) = executing s"
  by (cases "mgrType s") (simp_all add: start_defs split: prod.splits)

lemma stopTasks_executing: "executing (snd (stopTasks pthread_cancel s)) = executing s"
  by (cases "mgrType s") (simp_all add: stop_defs Let_def split: prod.splits)

lemma shutdown_executing:
  "\<not> executing s \<Longrightarrow> \<not> executing (snd (shutdown pthread_cancel s))"
  using stopTasks_executing [of pthread_cancel s]
  by (cases "stopTasks pthread_cancel s") (simp add: shutdown_def split: option.splits)

lemma exec_executing: "executing (exec s evs) = executing s"
  using exec_frame [of s evs] by (simp add: control'_def)

text \<open>
  Nothing sets \<open>executing\<close>: it is false when a manager is constructed, no step of
  another thread changes it, and the state that a call of \<open>operator()()\<close> leaves has
  it false again. So the test at the head of \<open>operator()()\<close> never succeeds.
\<close>

lemma operator_call_executing:
  assumes "\<not> executing s"
  shows "\<not> executing (snd (operator_call pthread_cancel s evs))"
proof (cases "done s")
  case True
  then show ?thesis using assms by (simp add: operator_call_def)
next
  case False
  obtain r1 s1 where st: "startTasks s = (r1, s1)" by (cases "startTasks s")
  have e1: "\<not> executing s1" using startTasks_executing [of s] st assms by simp
  show ?thesis
  proof (cases r1)
    case (Some ex)
    then show ?thesis using assms False st e1 by (simp add: operator_call_def)
  next
    case None
    let ?s2 = "exec s1 evs"
    have e2: "\<not> executing ?s2" using e1 by (simp add: exec_executing)
    obtain r3 s3 where sh: "shutdown pthread_cancel ?s2 = (r3, s3)"
      by (cases "shutdown pthread_cancel ?s2")
    have e3: "\<not> executing s3" using shutdown_executing [OF e2, of pthread_cancel] sh by simp
    obtain r4 s4 where sh2: "shutdown pthread_cancel s3 = (r4, s4)"
      by (cases "shutdown pthread_cancel s3")
    have e4: "\<not> executing s4" using shutdown_executing [OF e3, of pthread_cancel] sh2 by simp
    show ?thesis
      using assms False st None e2 e3 e4
      by (cases "waitUntilDone ?s2")
        (auto simp: operator_call_def Let_def sh sh2 split: option.splits)
  qed
qed

lemma executing_never_set:
  "\<not> executing (exec (Impl t n) evs)
   \<and> \<not> executing (snd (operator_call pthread_cancel (exec (Impl t n) evs) evs'))"
proof -
  have "\<not> executing (exec (Impl t n) evs)"
    by (simp add: exec_executing Impl_def)
  then show ?thesis using operator_call_executing by blast
qed

text \<open>
  C1 (the code departs from it): a publisher is run and halted, so that the first
  \<open>operator()()\<close> returns; it leaves \<open>executing\<close> false and \<open>done\<close> true, and a
  second call returns at once without an error. A second call made while the first one is
  still waiting, on the state that \<open>startTasks\<close> left, passes the test of
  \<open>executing\<close> too and starts the tasks again, which ends in \<open>std::terminate\<close> on
  the thread that is already joinable. No \<open>LogicError\<close> in either case.
\<close>

theorem operator_call_twice_no_LogicError:
  "fst (operator_call (\<lambda>t. 0) (Impl PubP2pMgr 2) [EvHalt]) = Some None
   \<and> \<not> executing pub_after_run \<and> done pub_after_run
   \<and> operator_call (\<lambda>t. 0) pub_after_run [] = (Some None, pub_after_run)
   \<and> fst (startTasks (Impl PubP2pMgr 2)) = None
   \<and> \<not> executing (snd (startTasks (Impl PubP2pMgr 2)))
   \<and> fst (operator_call (\<lambda>t. 0) (snd (startTasks (Impl PubP2pMgr 2))) []) = Some (Some TERMINATE)"
  by (simp add: pub_after_run_eq bk_defs mgr_defs Let_def)

subsection \<open>Admission to a full subscriber\<close>

text \<open>
  C2 (the code departs from it): a subscriber with \<open>maxPeers = 4\<close> holds one peer with
  a path to the publisher (\<open>pA\<close>) and three without. A peer with a path (\<open>pE\<close>)
  arrives: it is admitted, but the peer halted to make room is \<open>pA\<close>, the only peer
  of the incoming peer's own group, since \<open>getWorstPeer\<close> is given the incoming peer's
  flag. Once \<open>pA\<close> has stopped the counts are 1 and 3 again.
\<close>

theorem SubP2pMgr_tryAdd2_halts_same_group:
  "length (peerSet sub_one_three) = maxPeers sub_one_three
   \<and> getPubPathCounts (bookkeeper sub_one_three) = (1, 3)
   \<and> isPathToPub pE
   \<and> fst (tryAdd sub_one_three pE) = Inr True
   \<and> halted (snd (tryAdd sub_one_three pE)) = [pA]
   \<and> isPathToPub pA
   \<and> getPubPathCounts (bookkeeper (PeerSet_stopped (snd (tryAdd sub_one_three pE)) pA)) = (1, 3)"
  by (simp add: sub_one_three_def bk_defs mgr_defs peer_defs Let_def)

text \<open>
  Two more inputs on which the code and C2 differ. With as many peers with a path as
  without, a peer without a path is admitted (\<open>(numPath < numNoPath) == rmtIsPathToPub\<close>
  holds with both sides false). With no peer in the incoming peer's group, the peer of the
  under-represented group is refused, there being no worst peer in its own group.
\<close>

lemma SubP2pMgr_tryAdd2_tie:
  "getPubPathCounts (bookkeeper sub_two_peers) = (1, 1)
   \<and> length (peerSet sub_two_peers) = maxPeers sub_two_peers
   \<and> \<not> isPathToPub pC
   \<and> fst (tryAdd sub_two_peers pC) = Inr True
   \<and> halted (snd (tryAdd sub_two_peers pC)) = [pB]"
  by (simp add: sub_two_peers_eq bk_defs mgr_defs peer_defs Let_def)

lemma SubP2pMgr_tryAdd2_empty_group:
  "getPubPathCounts (bookkeeper sub_none_two) = (0, 2)
   \<and> length (peerSet sub_none_two) = maxPeers sub_none_two
   \<and> isPathToPub pE
   \<and> fst (tryAdd sub_none_two pE) = Inr False"
  by (simp add: sub_none_two_def bk_defs mgr_defs peer_defs Let_def)

subsection \<open>The size of the peer set\<close>

text \<open>
  C3, as stated: false. A subscriber with \<open>maxPeers = 3\<close> holds three peers, one of
  them with a path to the publisher; a fourth peer with a path is accepted, the worst peer
  is halted and the new one added: the set holds four peers.
\<close>

theorem peerSet_size_counterexample:
  "maxPeers sub_one_two = 3 \<and> length (peerSet sub_one_two) = 3
   \<and> maxPeers (step sub_one_two (EvAccept pE)) = 3
   \<and> length (peerSet (step sub_one_two (EvAccept pE))) = 4
   \<and> \<not> length (peerSet (exec (Impl SubP2pMgr 3) [EvAccept pA, EvAccept pB, EvAccept pC, EvAccept pE]))
        \<le> maxPeers (exec (Impl SubP2pMgr 3) [EvAccept pA, EvAccept pB, EvAccept pC, EvAccept pE])"
  by (simp add: sub_one_two_def bk_defs mgr_defs peer_defs Let_def)

text \<open>
  C3, amended: at every point of every execution of a manager constructed with
  \<open>maxPeers = n\<close>, the peer set holds at most \<open>n\<close> peers for a publisher and at most
  \<open>n + 1\<close> peers for a subscriber.
\<close>

theorem peerSet_size_bounded:
  "length (peerSet (exec (Impl t n) evs))
     \<le> (case t of PubP2pMgr \<Rightarrow> n | SubP2pMgr \<Rightarrow> Suc n)"
proof -
  have b: "sizeBound (Impl t n) = (case t of PubP2pMgr \<Rightarrow> n | SubP2pMgr \<Rightarrow> Suc n)"
    by (cases t) (simp_all add: sizeBound_def Impl_def)
  have "length (peerSet (Impl t n)) \<le> sizeBound (Impl t n)"
    by (simp add: Impl_def)
  from exec_size [OF this, of evs] show ?thesis
    unfolding b .
qed

theorem peerSet_size_bounded_witness:
  "length (peerSet (exec (Impl SubP2pMgr 3) [EvAccept pA, EvAccept pB, EvAccept pC, EvAccept pE])) \<le> 4
   \<and> length (peerSet (exec (Impl PubP2pMgr 1) [EvAccept pA, EvAccept pB])) \<le> 1"
  using peerSet_size_bounded [of SubP2pMgr 3 "[EvAccept pA, EvAccept pB, EvAccept pC, EvAccept pE]"]
    peerSet_size_bounded [of PubP2pMgr 1 "[EvAccept pA, EvAccept pB]"]
  by simp

subsection \<open>Reassigning the requests of a peer that stopped\<close>

lemma map_of_putRequested:
  "map_of (putRequested m p rs) q = (if q = p then Some rs else map_of m q)"
  by (induction m p rs rule: putRequested.induct) auto

lemma list_ex_putRequested:
  "item \<in> set rs \<Longrightarrow> list_ex (\<lambda>(p, rs). item \<in> set rs) (putRequested m p rs)"
  by (induction m p rs rule: putRequested.induct) auto

lemma reassign_sent:
  "sent (reassign s r)
     = sent s @ (case alternates (bookkeeper s) r of [] \<Rightarrow> [] | a # as \<Rightarrow> [(a, REQUEST r)])"
  by (simp add: reassign_def popBestAlt_def split: list.splits)

lemma reassign_alternates:
  "alternates (bookkeeper (reassign s r))
     = (alternates (bookkeeper s))(r := tl (alternates (bookkeeper s) r))"
  by (auto simp: reassign_def popBestAlt_def Bookkeeper_requested_def split: list.splits)

lemma reassign_requested:
  "set (getRequested (bookkeeper (reassign s r)) p)
     = set (getRequested (bookkeeper s) p)
       \<union> (if alternates (bookkeeper s) r \<noteq> [] \<and> hd (alternates (bookkeeper s) r) = p
          then {r} else {})"
  by (auto simp: reassign_def popBestAlt_def Bookkeeper_requested_def getRequested_def
        map_of_putRequested split: list.splits option.splits if_splits)

lemma foldl_reassign_alternates:
  "distinct rs \<Longrightarrow>
   alternates (bookkeeper (foldl reassign s rs)) r
     = (if r \<in> set rs then tl (alternates (bookkeeper s) r) else alternates (bookkeeper s) r)"
proof (induction rs arbitrary: s)
  case (Cons x xs)
  then show ?case by (simp add: reassign_alternates)
qed simp

lemma foldl_reassign_sent:
  "distinct rs \<Longrightarrow>
   sent (foldl reassign s rs)
     = sent s @ map (\<lambda>r. (hd (alternates (bookkeeper s) r), REQUEST r))
                  (filter (\<lambda>r. alternates (bookkeeper s) r \<noteq> []) rs)"
proof (induction rs arbitrary: s)
  case (Cons x xs)
  have same: "\<And>r. r \<in> set xs \<Longrightarrow>
      alternates (bookkeeper (reassign s x)) r = alternates (bookkeeper s) r"
    using Cons.prems by (auto simp: reassign_alternates)
  have f: "filter (\<lambda>r. alternates (bookkeeper (reassign s x)) r \<noteq> []) xs
         = filter (\<lambda>r. alternates (bookkeeper s) r \<noteq> []) xs"
    using same by (intro filter_cong) auto
  have m: "map (\<lambda>r. (hd (alternates (bookkeeper (reassign s x)) r), REQUEST r))
             (filter (\<lambda>r. alternates (bookkeeper s) r \<noteq> []) xs)
         = map (\<lambda>r. (hd (alternates (bookkeeper s) r), REQUEST r))
             (filter (\<lambda>r. alternates (bookkeeper s) r \<noteq> []) xs)"
    using same by (intro map_cong) auto
  have "sent (foldl reassign (reassign s x) xs)
      = sent (reassign s x) @ map (\<lambda>r. (hd (alternates (bookkeeper s) r), REQUEST r))
             (filter (\<lambda>r. alternates (bookkeeper s) r \<noteq> []) xs)"
    using Cons.IH [of "reassign s x"] Cons.prems f m by simp
  then show ?case by (simp add: reassign_sent split: list.splits)
qed simp

lemma foldl_reassign_requested:
  "distinct rs \<Longrightarrow>
   set (getRequested (bookkeeper (foldl reassign s rs)) p)
     = set (getRequested (bookkeeper s) p)
       \<union> {r \<in> set rs. alternates (bookkeeper s) r \<noteq> [] \<and> hd (alternates (bookkeeper s) r) = p}"
proof (induction rs arbitrary: s)
  case (Cons x xs)
  have same: "\<And>r. r \<in> set xs \<Longrightarrow>
      alternates (bookkeeper (reassign s x)) r = alternates (bookkeeper s) r"
    using Cons.prems by (auto simp: reassign_alternates)
  have "{r \<in> set xs. alternates (bookkeeper (reassign s x)) r \<noteq> []
            \<and> hd (alternates (bookkeeper (reassign s x)) r) = p}
      = {r \<in> set xs. alternates (bookkeeper s) r \<noteq> [] \<and> hd (alternates (bookkeeper s) r) = p}"
    using same by auto
  then show ?case
    using Cons.IH [of "reassign s x"] Cons.prems by (auto simp: reassign_requested)
qed simp

lemma map_of_filter_neq:
  "map_of (filter (\<lambda>(q, rs). q \<noteq> peer) m) p = (if p = peer then None else map_of m p)"
  by (induction m) auto

lemma getRequested_erase:
  "getRequested (Bookkeeper_erase bk peer) p = (if p = peer then [] else getRequested bk p)"
  by (simp add: getRequested_def Bookkeeper_erase_def map_of_filter_neq)

lemma alternates_erase:
  "alternates (Bookkeeper_erase bk peer) r = removeAll peer (alternates bk r)"
  by (simp add: Bookkeeper_erase_def)

lemma reassign_serverPool:
  "reassign (s\<lparr>serverPool := x\<rparr>) r = (reassign s r)\<lparr>serverPool := x\<rparr>"
  by (simp add: reassign_def split: prod.splits option.splits)

lemma foldl_reassign_serverPool:
  "foldl reassign (s\<lparr>serverPool := x\<rparr>) rs = (foldl reassign s rs)\<lparr>serverPool := x\<rparr>"
  by (induction rs arbitrary: s) (simp_all add: reassign_serverPool)

text \<open>The requests are reassigned first; the dead peer is erased afterwards.\<close>

lemma SubP2pMgr_stopped_unfold:
  assumes "mgrType s = SubP2pMgr" "\<not> done s"
  shows "stopped s peer
           = (foldl reassign s (getRequested (bookkeeper s) peer))
               \<lparr>serverPool := serverPool s @ [getRmtAddr peer],
                bookkeeper := Bookkeeper_erase
                   (bookkeeper (foldl reassign s (getRequested (bookkeeper s) peer))) peer,
                peers := (peers s)(getRmtAddr peer := None)\<rparr>"
proof -
  have "stopped2 s peer
      = (foldl reassign s (getRequested (bookkeeper s) peer))
          \<lparr>serverPool := serverPool s @ [getRmtAddr peer]\<rparr>"
    using assms(1)
    by (simp add: stopped2_def SubP2pMgr_stopped2_def reassignPending_def foldl_reassign_serverPool)
  then show ?thesis
    using assms(2) by (simp add: stopped_def Let_def foldl_reassign_frame)
qed

text \<open>
  C5, as stated: false. On a subscriber that was halted, a peer with an outstanding
  request stops while another peer is an alternate for the item: nothing is popped,
  nothing is sent and nothing is assigned to the alternate.
\<close>

theorem stopped_when_done_counterexample:
  "mgrType (halt sub_pending) = SubP2pMgr \<and> done (halt sub_pending)
   \<and> getRequested (bookkeeper (halt sub_pending)) pA = [item7]
   \<and> alternates (bookkeeper (halt sub_pending)) item7 = [pB]
   \<and> sent (stopped (halt sub_pending) pA) = sent (halt sub_pending)
   \<and> alternates (bookkeeper (stopped (halt sub_pending) pA)) item7 = [pB]
   \<and> getRequested (bookkeeper (stopped (halt sub_pending) pA)) pB = []"
  by (simp add: sub_pending_eq sub_two_peers_eq bk_defs mgr_defs peer_defs Let_def)

text \<open>
  C5, amended: when a peer of a subscriber that has not been halted stops, then for each
  of that peer's outstanding requests, taken from the bookkeeper before the peer is
  erased, the best alternate is popped; if there is one, the request is sent to it (the
  requests in their order, and nothing else is sent) and recorded as assigned to it; if
  there is none, the request is dropped: nothing is sent and nothing assigned for it. The
  dead peer is erased afterwards: the assignments made to the other peers stay, no request
  stays assigned to the dead peer and it is no alternate any more.
\<close>

theorem stopped_reassigns_pending:
  assumes "mgrType s = SubP2pMgr" and "\<not> done s"
    and "distinct (getRequested (bookkeeper s) peer)"
  shows "sent (stopped s peer)
           = sent s @ map (\<lambda>r. (hd (alternates (bookkeeper s) r), REQUEST r))
                        (filter (\<lambda>r. alternates (bookkeeper s) r \<noteq> [])
                           (getRequested (bookkeeper s) peer))
         \<and> (\<forall>r \<in> set (getRequested (bookkeeper s) peer).
               alternates (bookkeeper s) r \<noteq> [] \<longrightarrow>
               r \<in> set (getRequested (bookkeeper (stopped2 s peer))
                           (hd (alternates (bookkeeper s) r))))
         \<and> (\<forall>r p. p \<noteq> peer \<longrightarrow>
               (r \<in> set (getRequested (bookkeeper (stopped s peer)) p))
                 = (r \<in> set (getRequested (bookkeeper s) p)
                    \<or> (r \<in> set (getRequested (bookkeeper s) peer)
                        \<and> alternates (bookkeeper s) r \<noteq> []
                        \<and> hd (alternates (bookkeeper s) r) = p)))
         \<and> (\<forall>r \<in> set (getRequested (bookkeeper s) peer).
               alternates (bookkeeper (stopped s peer)) r
                 = removeAll peer (tl (alternates (bookkeeper s) r)))
         \<and> getRequested (bookkeeper (stopped s peer)) peer = []"
proof -
  let ?rs = "getRequested (bookkeeper s) peer"
  let ?t = "foldl reassign s ?rs"
  have bk: "bookkeeper (stopped s peer) = Bookkeeper_erase (bookkeeper ?t) peer"
    and sn: "sent (stopped s peer) = sent ?t"
    by (simp_all add: SubP2pMgr_stopped_unfold [OF assms(1,2)])
  have 1: "sent (stopped s peer)
           = sent s @ map (\<lambda>r. (hd (alternates (bookkeeper s) r), REQUEST r))
                        (filter (\<lambda>r. alternates (bookkeeper s) r \<noteq> []) ?rs)"
    unfolding sn by (rule foldl_reassign_sent [OF assms(3)])
  have 2: "\<And>r p. p \<noteq> peer \<Longrightarrow>
               (r \<in> set (getRequested (bookkeeper (stopped s peer)) p))
                 = (r \<in> set (getRequested (bookkeeper s) p)
                    \<or> (r \<in> set ?rs \<and> alternates (bookkeeper s) r \<noteq> []
                        \<and> hd (alternates (bookkeeper s) r) = p))"
    unfolding bk using foldl_reassign_requested [OF assms(3), of s]
    by (simp add: getRequested_erase)
  have 3: "\<And>r. r \<in> set ?rs \<Longrightarrow>
               alternates (bookkeeper (stopped s peer)) r
                 = removeAll peer (tl (alternates (bookkeeper s) r))"
    unfolding bk by (simp add: alternates_erase foldl_reassign_alternates [OF assms(3)])
  have 4: "getRequested (bookkeeper (stopped s peer)) peer = []"
    unfolding bk by (simp add: getRequested_erase)
  have st2: "bookkeeper (stopped2 s peer) = bookkeeper ?t"
    using assms(1)
    by (simp add: stopped2_def SubP2pMgr_stopped2_def reassignPending_def foldl_reassign_serverPool)
  have 5: "\<And>r. r \<in> set ?rs \<Longrightarrow> alternates (bookkeeper s) r \<noteq> [] \<Longrightarrow>
               r \<in> set (getRequested (bookkeeper (stopped2 s peer))
                           (hd (alternates (bookkeeper s) r)))"
    unfolding st2 using foldl_reassign_requested [OF assms(3), of s] by simp
  from 1 2 3 4 5 show ?thesis by blast
qed

theorem stopped_reassigns_pending_witness:
  "mgrType sub_pending = SubP2pMgr \<and> \<not> done sub_pending
   \<and> distinct (getRequested (bookkeeper sub_pending) pA)
   \<and> getRequested (bookkeeper sub_pending) pA = [item7]
   \<and> alternates (bookkeeper sub_pending) item7 = [pB]
   \<and> sent (stopped sub_pending pA) = [(pB, REQUEST item7)]
   \<and> item7 \<in> set (getRequested (bookkeeper (stopped2 sub_pending pA)) pB)
   \<and> item7 \<in> set (getRequested (bookkeeper (stopped sub_pending pA)) pB)
   \<and> alternates (bookkeeper (stopped sub_pending pA)) item7 = []"
  using stopped_reassigns_pending [of sub_pending pA]
  by (simp add: sub_pending_eq sub_two_peers_eq bk_defs mgr_defs peer_defs Let_def)

subsection \<open>Whether to request what a peer announces\<close>

lemma shouldRequest_outstanding:
  "isOutstanding (snd (Bookkeeper_shouldRequest bk peer item)) item"
  by (simp add: Bookkeeper_shouldRequest_def isOutstanding_def list_ex_putRequested)

lemma shouldRequest_result:
  "fst (Bookkeeper_shouldRequest bk peer item) = (\<not> isOutstanding bk item)"
  by (simp add: Bookkeeper_shouldRequest_def)

text \<open>
  C6: for a peer that the manager knows and any item, \<open>shouldRequest\<close> returns true
  iff no peer has the item as an outstanding request and the layer above wants the item;
  a second call with the same peer and item returns false, whatever the layer above
  answers then.
\<close>

theorem shouldRequest_iff_and_second_false:
  assumes "peers s rmtAddr = Some peer"
  shows "fst (SubP2pMgr_shouldRequest wants s rmtAddr item)
           = Inr (\<not> isOutstanding (bookkeeper s) item \<and> wants item)
         \<and> fst (SubP2pMgr_shouldRequest wants'
                  (snd (SubP2pMgr_shouldRequest wants s rmtAddr item)) rmtAddr item)
           = Inr False"
proof -
  obtain b bk where r: "Bookkeeper_shouldRequest (bookkeeper s) peer item = (b, bk)"
    by (cases "Bookkeeper_shouldRequest (bookkeeper s) peer item")
  have b: "b = (\<not> isOutstanding (bookkeeper s) item)"
    using shouldRequest_result [of "bookkeeper s" peer item] r by simp
  have o: "isOutstanding bk item"
    using shouldRequest_outstanding [of "bookkeeper s" peer item] r by simp
  have s': "snd (SubP2pMgr_shouldRequest wants s rmtAddr item) = s\<lparr>bookkeeper := bk\<rparr>"
    using assms r by (simp add: SubP2pMgr_shouldRequest_def Let_def)
  have first: "fst (SubP2pMgr_shouldRequest wants s rmtAddr item) = Inr (b \<and> wants item)"
    using assms r by (simp add: SubP2pMgr_shouldRequest_def Let_def)
  have second:
    "fst (SubP2pMgr_shouldRequest wants' (s\<lparr>bookkeeper := bk\<rparr>) rmtAddr item) = Inr False"
    using assms o shouldRequest_result [of bk peer item]
    by (cases "Bookkeeper_shouldRequest bk peer item")
      (simp add: SubP2pMgr_shouldRequest_def Let_def)
  show ?thesis using first second s' b by simp
qed

theorem shouldRequest_iff_and_second_false_witness:
  "peers sub_two_peers 1 = Some pA
   \<and> \<not> isOutstanding (bookkeeper sub_two_peers) item7
   \<and> fst (SubP2pMgr_shouldRequest (\<lambda>r. True) sub_two_peers 1 item7) = Inr True
   \<and> fst (SubP2pMgr_shouldRequest (\<lambda>r. True)
            (snd (SubP2pMgr_shouldRequest (\<lambda>r. True) sub_two_peers 1 item7)) 1 item7)
       = Inr False"
  using shouldRequest_iff_and_second_false
          [of sub_two_peers 1 pA "\<lambda>r. True" item7 "\<lambda>r. True"]
  by (simp add: sub_two_peers_eq bk_defs mgr_defs)

subsection \<open>Data from a peer\<close>

text \<open>
  C7: for a peer that the manager knows, \<open>hereIs\<close> returns true iff the item was
  outstanding from that very peer and the layer above newly accepted it; in that case a
  notice of the item goes to every peer of the set but the source, and in the other case
  nothing is sent.
\<close>

theorem hereIs_accepts_and_notifies:
  assumes "peers s rmtAddr = Some peer"
  shows "fst (SubP2pMgr_hereIs hereIsP2p s rmtAddr item)
           = Inr (item \<in> set (getRequested (bookkeeper s) peer) \<and> hereIsP2p item)
         \<and> sent (snd (SubP2pMgr_hereIs hereIsP2p s rmtAddr item))
           = sent s @ (if item \<in> set (getRequested (bookkeeper s) peer) \<and> hereIsP2p item
                       then map (\<lambda>p. (p, NOTICE item)) (filter (\<lambda>p. p \<noteq> peer) (peerSet s))
                       else [])"
  using assms
  by (simp add: SubP2pMgr_hereIs_def Bookkeeper_received_def PeerSet_notify_def Let_def)

theorem hereIs_accepts_and_notifies_witness:
  "peers sub_pending 1 = Some pA
   \<and> fst (SubP2pMgr_hereIs (\<lambda>r. True) sub_pending 1 item7) = Inr True
   \<and> sent (snd (SubP2pMgr_hereIs (\<lambda>r. True) sub_pending 1 item7)) = [(pB, NOTICE item7)]
   \<and> peers sub_pending 2 = Some pB
   \<and> fst (SubP2pMgr_hereIs (\<lambda>r. True) sub_pending 2 item7) = Inr False
   \<and> sent (snd (SubP2pMgr_hereIs (\<lambda>r. True) sub_pending 2 item7)) = []"
  using hereIs_accepts_and_notifies [of sub_pending 1 pA "\<lambda>r. True" item7]
    hereIs_accepts_and_notifies [of sub_pending 2 pB "\<lambda>r. True" item7]
  by (simp add: sub_pending_eq sub_two_peers_eq bk_defs mgr_defs peer_defs)

subsection \<open>The exception of a task\<close>




text \<open>
  The cell is written once: a report that finds an exception in the cell changes nothing,
  and no step replaces an exception that the cell holds.
\<close>

lemma setException_once:
  "taskException (setException s e1) \<noteq> None
   \<and> taskException (setException (setException s e1) e2) = taskException (setException s e1)"
  by (simp add: setException_def)






end
